theory Spec2Isabelle
  imports Complex_Main "HOL-Library.AList" "HOL-Library.Multiset"
begin

section \<open>Double-precision arithmetic\<close>

text \<open>
  JavaScript numbers are IEEE 754 doubles, and \<^verbatim>\<open>*\<close> and \<^verbatim>\<open>+\<close> round their exact result to
  the nearest double, ties to the even significand. A finite double is modelled by the
  rational it denotes. Only non-negative values below \<open>2 ^ 1024\<close> occur here (no infinity,
  no NaN).

  \<open>binade x\<close> is the exponent of the double format at \<open>x\<close>: \<open>e\<close> with
  \<open>2 ^ e \<le> x < 2 ^ (e + 1)\<close>, and \<open>- 1022\<close> for the subnormal range below \<open>2 ^ - 1022\<close>.
  Doubles at \<open>x\<close> are spaced \<open>ulp x = 2 ^ (e - 52)\<close> apart, and \<open>roundDouble x\<close> is the multiple of
  \<open>ulp x\<close> nearest to \<open>x\<close>.
\<close>

fun exponentAbove :: "nat \<Rightarrow> rat \<Rightarrow> int" where
  "exponentAbove 0 x = 0"
| "exponentAbove (Suc n) x = (if x < 2 then 0 else exponentAbove n (x / 2) + 1)"

fun exponentBelow :: "nat \<Rightarrow> rat \<Rightarrow> int" where
  "exponentBelow 0 x = 0"
| "exponentBelow (Suc n) x = (if 1 \<le> x then 0 else exponentBelow n (2 * x) - 1)"

definition binade :: "rat \<Rightarrow> int" where
  "binade x = (if 1 \<le> x then exponentAbove 1023 x else exponentBelow 1022 x)"

definition ulp :: "rat \<Rightarrow> rat" where
  "ulp x = 2 powi (binade x - 52)"

definition roundTiesToEven :: "rat \<Rightarrow> int" where
  "roundTiesToEven q =
     (let f = \<lfloor>q\<rfloor>; d = q - of_int f
      in if d < 1 / 2 then f else if 1 / 2 < d then f + 1 else if even f then f else f + 1)"

definition roundDouble :: "rat \<Rightarrow> rat" where
  "roundDouble x = of_int (roundTiesToEven (x / ulp x)) * ulp x"

section \<open>Room codes\<close>

text \<open>
  The registry is the \<^verbatim>\<open>Map\<close> of \<^verbatim>\<open>index.js\<close>, keyed by the room code (a string).
  \<^verbatim>\<open>generateUniqueRoomId\<close> only asks \<^verbatim>\<open>rooms.has(roomId)\<close>, so it is modelled over any
  registry \<open>string \<rightharpoonup> 'r\<close>.

  \<^verbatim>\<open>Number.prototype.toString\<close> on a non-negative integer: its decimal digits, most
  significant first, no leading zero.
\<close>

definition digitChar :: "nat \<Rightarrow> char" where
  "digitChar d = ''0123456789'' ! d"

fun toString :: "nat \<Rightarrow> string" where
  "toString n = (if n < 10 then [digitChar n] else toString (n div 10) @ [digitChar (n mod 10)])"

declare toString.simps [simp del]

text \<open>The number a string of decimal digits denotes (used to state the range of a code).\<close>

definition digitValue :: "char \<Rightarrow> nat" where
  "digitValue c =
     (case map_of (zip ''0123456789'' [0, 1, 2, 3, 4, 5, 6, 7, 8, 9]) c of
        Some d \<Rightarrow> d
      | None \<Rightarrow> 0)"

definition isDigit :: "char \<Rightarrow> bool" where
  "isDigit c = (c \<in> set ''0123456789'')"

definition numberOf :: "string \<Rightarrow> nat" where
  "numberOf s = foldl (\<lambda>acc c. 10 * acc + digitValue c) 0 s"

text \<open>
  \<^verbatim>\<open>Math.random()\<close> is the environment: the \<open>i\<close>-th call made by one run of the loop
  returns \<open>random i\<close>, a double in \<open>[0, 1)\<close>. The product and the sum are rounded to
  doubles; \<^verbatim>\<open>Math.floor\<close> is exact.
  \<^verbatim>\<open>
  const generateUniqueRoomId = (rooms) => {
    let roomId;
    let exists = true;
    while (exists) {
      roomId = Math.floor(100000 + Math.random() * 900000).toString();
      exists = rooms.has(roomId);
    }
    return roomId;
  };
  \<close>
  The loop may run forever: \<open>None\<close> is not returning.
\<close>

definition roomNumber :: "rat \<Rightarrow> nat" where
  "roomNumber r = nat \<lfloor>roundDouble (100000 + roundDouble (r * 900000))\<rfloor>"

definition sampleRoomId :: "rat \<Rightarrow> string" where
  "sampleRoomId r = toString (roomNumber r)"

partial_function (option) generateUniqueRoomId_loop ::
  "(nat \<Rightarrow> rat) \<Rightarrow> (string \<rightharpoonup> 'r) \<Rightarrow> nat \<Rightarrow> string option" where
  "generateUniqueRoomId_loop random rooms i =
     (let roomId = sampleRoomId (random i);
          exists = (rooms roomId \<noteq> None)
      in if exists then generateUniqueRoomId_loop random rooms (Suc i) else Some roomId)"

definition generateUniqueRoomId :: "(nat \<Rightarrow> rat) \<Rightarrow> (string \<rightharpoonup> 'r) \<Rightarrow> string option" where
  "generateUniqueRoomId random rooms = generateUniqueRoomId_loop random rooms 0"

text \<open>
  What is assumed of the random source: every value is a double in \<open>[0, 1)\<close>, and every
  one of the 900000 codes is sampled at some call (an event of probability 1 for
  independent uniform samples).
\<close>

definition randomDoubles :: "(nat \<Rightarrow> rat) \<Rightarrow> bool" where
  "randomDoubles random =
     (\<forall>i. 0 \<le> random i \<and> random i < 1 \<and> roundDouble (random i) = random i)"

definition samplesEveryCode :: "(nat \<Rightarrow> rat) \<Rightarrow> bool" where
  "samplesEveryCode random =
     (\<forall>n. 100000 \<le> n \<and> n \<le> 999999 \<longrightarrow> (\<exists>i. roomNumber (random i) = n))"

text \<open>
  A concrete source, for running the loop: call \<open>i\<close>, with \<open>k = i mod 900000\<close>, returns the
  least multiple of \<open>2 ^ - 53\<close> that is at least \<open>(k + 1 / 4) / 900000\<close>, a double for which
  the code computes \<open>100000 + k\<close>.
\<close>

definition cyclicSource :: "nat \<Rightarrow> rat" where
  "cyclicSource i = of_int \<lceil>of_nat (4 * (i mod 900000) + 1) * 2 ^ 51 / (900000 :: rat)\<rceil> / 2 ^ 53"

section \<open>Data model\<close>

text \<open>
  A category reference as JavaScript holds it: \<^verbatim>\<open>currentRound\<close> is \<^verbatim>\<open>null\<close> before the
  first round, reading \<^verbatim>\<open>rounds[i]\<close> out of range gives \<^verbatim>\<open>undefined\<close>, and the elements
  of \<^verbatim>\<open>rounds\<close> are category ids (integers).
\<close>

datatype category = Null | Undefined | CategoryId int

datatype difficulty = easy | medium | hard

text \<open>
  \<^verbatim>\<open>initializePlayer\<close>'s object. \<^verbatim>\<open>currentRoundAnswers\<close> is an object keyed by the question
  id; ranks are \<^verbatim>\<open>null\<close> (\<open>None\<close>) until computed.
\<close>

record player =
  name :: string
  currentRoundScore :: int
  totalScore :: int
  currentRoundAnswers :: "int \<rightharpoonup> bool"
  endOfRoundRank :: "nat option"
  overallRank :: "nat option"

text \<open>One entry of the provider's \<^verbatim>\<open>results\<close>, and one entry of \<^verbatim>\<open>formattedQuestions\<close>.\<close>

datatype questionData =
  QuestionData (qd_question: string) (qd_correct_answer: string) (incorrect_answers: "string list")

record formattedQuestion =
  question :: string
  correct_answer :: string
  allAnswers :: "string list"

text \<open>
  What \<^verbatim>\<open>currentProgress.roundQuestions\<close> can hold: \<^verbatim>\<open>null\<close> (in \<^verbatim>\<open>createRoom\<close>, before
  the first round is stored), the string \<^verbatim>\<open>"end of round"\<close> that \<^verbatim>\<open>generateRound\<close> returns
  when the plan is used up (\<^verbatim>\<open>nextRound\<close> stores whatever \<^verbatim>\<open>generateRound\<close> returns), or
  the object \<^verbatim>\<open>formattedQuestions\<close>, keyed \<open>1..N\<close>.
\<close>

datatype roundQuestionsValue =
  NullQuestions
  | EndOfRoundString
  | FormattedQuestions "int \<rightharpoonup> formattedQuestion"

record progress =
  currentRound :: category
  currentQuestion :: int
  roundQuestions :: roundQuestionsValue

text \<open>
  \<^verbatim>\<open>players\<close> is an object keyed by \<^verbatim>\<open>socket.id\<close>; \<^verbatim>\<open>Object.entries\<close> and \<^verbatim>\<open>Object.keys\<close>
  enumerate it in insertion order, so it is an association list (a JavaScript object
  holds each key once: \<open>distinct (map fst (players room))\<close>).
\<close>

record room =
  roomId :: string
  gameMaster :: string
  questionTimeLimit :: nat
  questionPerRound :: nat
  mode :: int
  rounds :: "int list"
  players :: "(string \<times> player) list"
  quizStarted :: bool
  currentProgress :: progress

type_synonym registry = "string \<rightharpoonup> room"

definition initializePlayer :: "string \<Rightarrow> player" where
  "initializePlayer playerName =
     \<lparr>name = playerName, currentRoundScore = 0, totalScore = 0,
      currentRoundAnswers = Map.empty, endOfRoundRank = None, overallRank = None\<rparr>"

section \<open>Shuffling\<close>

text \<open>
  \<^verbatim>\<open>
  function shuffleArray(array) {
    for (let i = array.length - 1; i > 0; i--) {
      const j = Math.floor(Math.random() * (i + 1));
      [array[i], array[j]] = [array[j], array[i]];
    }
  }
  \<close>
  \<open>random i\<close> is what \<^verbatim>\<open>Math.random()\<close> returns in the iteration with index \<open>i\<close>.
\<close>

fun shuffleArray_loop :: "(nat \<Rightarrow> rat) \<Rightarrow> nat \<Rightarrow> 'a list \<Rightarrow> 'a list" where
  "shuffleArray_loop random 0 array = array"
| "shuffleArray_loop random (Suc k) array =
     (let i = Suc k;
          j = nat \<lfloor>roundDouble (random i * of_nat (i + 1))\<rfloor>
      in shuffleArray_loop random k (array[i := array ! j, j := array ! i]))"

definition shuffleArray :: "(nat \<Rightarrow> rat) \<Rightarrow> 'a list \<Rightarrow> 'a list" where
  "shuffleArray random array = shuffleArray_loop random (length array - 1) array"

section \<open>Rankings\<close>

text \<open>
  \<^verbatim>\<open>.sort((a, b) => b.score - a.score)\<close>: a stable sort, descending by score
  (\<open>sort_key\<close> is a stable insertion sort, ascending by its key).
\<close>

definition sortDescending :: "(string \<times> int) list \<Rightarrow> (string \<times> int) list" where
  "sortDescending entries = sort_key (\<lambda>e. - snd e) entries"

text \<open>
  The ranking loop, which \<^verbatim>\<open>calculateRankings\<close> runs twice, once per rank field
  (\<open>setRank\<close> is the assignment to that field):
  \<^verbatim>\<open>
  let currentRank = 1;
  for (let i = 0; i < roundRankings.length; i++) {
    if (i > 0 && roundRankings[i].score !== roundRankings[i - 1].score) {
      currentRank = i + 1;
    }
    room.players[roundRankings[i].playerId].endOfRoundRank = currentRank;
  }
  \<close>
\<close>

function assignRanks ::
  "(nat \<Rightarrow> player \<Rightarrow> player) \<Rightarrow> (string \<times> int) list \<Rightarrow> nat \<Rightarrow> nat \<Rightarrow>
   (string \<times> player) list \<Rightarrow> (string \<times> player) list" where
  "assignRanks setRank rankings i currentRank ps =
     (if i < length rankings then
        (let currentRank' =
               (if i > 0 \<and> snd (rankings ! i) \<noteq> snd (rankings ! (i - 1)) then i + 1
                else currentRank)
         in assignRanks setRank rankings (i + 1) currentRank'
              (AList.map_entry (fst (rankings ! i)) (setRank currentRank') ps))
      else ps)"
  by pat_completeness auto
termination
  by (relation "measure (\<lambda>(setRank, rankings, i, currentRank, ps). length rankings - i)") auto

declare assignRanks.simps [simp del]

definition roundRankings :: "(string \<times> player) list \<Rightarrow> (string \<times> int) list" where
  "roundRankings ps =
     sortDescending (map (\<lambda>(playerId, player). (playerId, currentRoundScore player)) ps)"

definition overallRankings :: "(string \<times> player) list \<Rightarrow> (string \<times> int) list" where
  "overallRankings ps =
     sortDescending (map (\<lambda>(playerId, player). (playerId, totalScore player)) ps)"

definition calculateRankings :: "room \<Rightarrow> room" where
  "calculateRankings room =
     (let ps1 = assignRanks (\<lambda>r p. p\<lparr>endOfRoundRank := Some r\<rparr>)
                  (roundRankings (players room)) 0 1 (players room);
          ps2 = assignRanks (\<lambda>r p. p\<lparr>overallRank := Some r\<rparr>)
                  (overallRankings ps1) 0 1 ps1
      in room\<lparr>players := ps2\<rparr>)"

section \<open>Round generation\<close>

text \<open>
  The provider (the HTTP call to the Open Trivia Database) is the environment:
  \<open>api amount category difficulty\<close> is \<open>Some results\<close>, or \<open>None\<close> when the request or
  reading its answer throws.
\<close>

type_synonym triviaApi = "nat \<Rightarrow> category \<Rightarrow> difficulty \<Rightarrow> questionData list option"

definition difficultyMap :: "int \<Rightarrow> difficulty option" where
  "difficultyMap m =
     (if m = 1 then Some easy else if m = 2 then Some medium else if m = 3 then Some hard
      else if m = 4 then Some easy else None)"

text \<open>\<^verbatim>\<open>rounds.indexOf(currentRound)\<close>: the first index holding the value, or \<open>-1\<close>.\<close>

fun indexOf :: "int list \<Rightarrow> category \<Rightarrow> int" where
  "indexOf [] v = - 1"
| "indexOf (x # xs) v =
     (if CategoryId x = v then 0
      else (let r = indexOf xs v in if r < 0 then - 1 else r + 1))"

text \<open>\<^verbatim>\<open>rounds[i]\<close>: \<^verbatim>\<open>undefined\<close> out of range.\<close>

definition arrayGet :: "int list \<Rightarrow> int \<Rightarrow> category" where
  "arrayGet array i =
     (if 0 \<le> i \<and> i < int (length array) then CategoryId (array ! nat i) else Undefined)"

text \<open>
  The choice of the next category in \<^verbatim>\<open>generateRound\<close>; \<open>None\<close> is the branch that
  returns \<^verbatim>\<open>"end of round"\<close>.
  \<^verbatim>\<open>
  if (currentRound === null) {
    nextCategoryId = rounds[0];
  } else {
    const currentIndex = rounds.indexOf(currentRound);
    if (currentIndex >= 0 && currentIndex < rounds.length - 1) {
      nextCategoryId = rounds[currentIndex + 1];
    } else {
      return "end of round";
    }
  }
  \<close>
\<close>

definition nextCategoryId :: "category \<Rightarrow> int list \<Rightarrow> category option" where
  "nextCategoryId currentRoundArg roundsArg =
     (if currentRoundArg = Null then Some (arrayGet roundsArg 0)
      else
        (let currentIndex = indexOf roundsArg currentRoundArg
         in if currentIndex \<ge> 0 \<and> currentIndex < int (length roundsArg) - 1
            then Some (arrayGet roundsArg (currentIndex + 1))
            else None))"

text \<open>
  \<^verbatim>\<open>results.forEach((questionData, index) => { ... formattedQuestions[index + 1] = ... })\<close>;
  \<open>random index\<close> is the random source of the shuffle of question \<open>index\<close>.
\<close>

definition formatQuestion :: "(nat \<Rightarrow> rat) \<Rightarrow> questionData \<Rightarrow> formattedQuestion" where
  "formatQuestion random questionData =
     \<lparr>question = qd_question questionData,
      correct_answer = qd_correct_answer questionData,
      allAnswers =
        shuffleArray random (qd_correct_answer questionData # incorrect_answers questionData)\<rparr>"

definition formatQuestions ::
  "(nat \<Rightarrow> nat \<Rightarrow> rat) \<Rightarrow> questionData list \<Rightarrow> (int \<rightharpoonup> formattedQuestion)" where
  "formatQuestions random results =
     fold (\<lambda>(index, questionData) formattedQuestions.
             formattedQuestions(int index + 1 \<mapsto> formatQuestion (random index) questionData))
       (enumerate 0 results) Map.empty"

datatype error =
  FailedToGenerateRoundQuestions
  | FailedToCreateRoomDueToQuestionGeneration
  | FailedToCreateRoom
  | NoPlayersInRoom
  | RoomNotFound
  | QuizAlreadyStarted
  | PlayerNotFound
  | NoActiveQuestion
  | FailedToGenerateNextRound
  | UncaughtTypeError

text \<open>
  \<^verbatim>\<open>generateRound\<close> returns the string \<^verbatim>\<open>"end of round"\<close> or \<^verbatim>\<open>formattedQuestions\<close>
  (after setting \<^verbatim>\<open>room.currentProgress.currentRound\<close>), or throws
  \<^verbatim>\<open>Error("Failed to generate round questions")\<close> (\<open>Inl\<close>), the room untouched.
\<close>

definition generateRound ::
  "triviaApi \<Rightarrow> (nat \<Rightarrow> nat \<Rightarrow> rat) \<Rightarrow> category \<Rightarrow> int list \<Rightarrow> int \<Rightarrow> nat \<Rightarrow> room \<Rightarrow>
   error + (roundQuestionsValue \<times> room)" where
  "generateRound api random currentRoundArg roundsArg modeArg questionsPerRound room =
     (let difficulty = (case difficultyMap modeArg of Some d \<Rightarrow> d | None \<Rightarrow> easy)
      in case nextCategoryId currentRoundArg roundsArg of
           None \<Rightarrow> Inr (EndOfRoundString, room)
         | Some nextCategory \<Rightarrow>
             (case api questionsPerRound nextCategory difficulty of
                None \<Rightarrow> Inl FailedToGenerateRoundQuestions
              | Some results \<Rightarrow>
                  Inr (FormattedQuestions (formatQuestions random results),
                       room\<lparr>currentProgress := (currentProgress room)\<lparr>currentRound := nextCategory\<rparr>\<rparr>)))"

section \<open>Room creation\<close>

text \<open>
  \<^verbatim>\<open>createRoom\<close>: \<open>None\<close> when \<^verbatim>\<open>generateUniqueRoomId\<close> does not return. Otherwise the
  outcome (the room, or the error thrown) and the registry afterwards. The optional
  payload fields are \<open>None\<close> when \<^verbatim>\<open>undefined\<close>.
\<close>

definition createRoom ::
  "(nat \<Rightarrow> rat) \<Rightarrow> triviaApi \<Rightarrow> (nat \<Rightarrow> nat \<Rightarrow> rat) \<Rightarrow> string \<Rightarrow> registry \<Rightarrow>
   nat option \<Rightarrow> nat option \<Rightarrow> int list \<Rightarrow> int \<Rightarrow> ((error + room) \<times> registry) option" where
  "createRoom idRandom api random socketId rooms questionTimeLimitArg questionsPerRound roundsArg modeArg =
     (let questionTimeLimit' = (case questionTimeLimitArg of Some t \<Rightarrow> t | None \<Rightarrow> 0);
          questionsPerRound' = (case questionsPerRound of Some n \<Rightarrow> n | None \<Rightarrow> 5)
      in case generateUniqueRoomId idRandom rooms of
           None \<Rightarrow> None
         | Some newRoomId \<Rightarrow>
             (let room =
                    \<lparr>roomId = newRoomId, gameMaster = socketId,
                     questionTimeLimit = questionTimeLimit',
                     questionPerRound = questionsPerRound',
                     mode = modeArg, rounds = roundsArg, players = [], quizStarted = False,
                     currentProgress =
                       \<lparr>currentRound = Null, currentQuestion = 1,
                        roundQuestions = NullQuestions\<rparr>\<rparr>
              in case generateRound api random Null roundsArg modeArg questionsPerRound' room of
                   Inl e \<Rightarrow> Some (Inl FailedToCreateRoomDueToQuestionGeneration, rooms)
                 | Inr (newQuestions, room1) \<Rightarrow>
                     (let room2 =
                            room1\<lparr>currentProgress :=
                                     (currentProgress room1)\<lparr>roundQuestions := newQuestions\<rparr>\<rparr>
                      in Some (Inr room2, rooms(newRoomId \<mapsto> room2)))))"

section \<open>The socket handlers\<close>

text \<open>
  Each handler takes the registry and returns what it passes to \<^verbatim>\<open>callback\<close> (\<open>Inl\<close> an
  error, \<open>Inr\<close> the result) and the registry afterwards. A handler mutates the room object
  it got from \<^verbatim>\<open>rooms.get(payload.roomId)\<close>: the registry afterwards holds the mutated room
  under that key. Payload fields have the types the clients send: \<^verbatim>\<open>roomId\<close> and \<^verbatim>\<open>name\<close>
  strings, \<^verbatim>\<open>questionId\<close> and \<^verbatim>\<open>answer\<close> integers; \<^verbatim>\<open>socket.id\<close> is the connection's
  identifier. Messages sent with \<^verbatim>\<open>io.to(...).emit\<close> and console output are not part of
  the state and are left out.
\<close>

datatype reply = RoomReply room | MessageReply string

type_synonym response = "(error + reply) \<times> registry"

definition create ::
  "(nat \<Rightarrow> rat) \<Rightarrow> triviaApi \<Rightarrow> (nat \<Rightarrow> nat \<Rightarrow> rat) \<Rightarrow> string \<Rightarrow> registry \<Rightarrow>
   nat option \<Rightarrow> nat option \<Rightarrow> int list \<Rightarrow> int \<Rightarrow> response option" where
  "create idRandom api random socketId rooms questionTimeLimitArg questionPerRoundArg roundsArg modeArg =
     (case createRoom idRandom api random socketId rooms questionTimeLimitArg
             questionPerRoundArg roundsArg modeArg of
        None \<Rightarrow> None
      | Some (Inl e, rooms') \<Rightarrow> Some (Inl FailedToCreateRoom, rooms')
      | Some (Inr newRoom, rooms') \<Rightarrow> Some (Inr (RoomReply newRoom), rooms'))"

definition startQuiz :: "registry \<Rightarrow> string \<Rightarrow> response" where
  "startQuiz rooms payloadRoomId =
     (case rooms payloadRoomId of
        Some room \<Rightarrow>
          (let playerCount = length (map fst (players room))
           in if playerCount = 0 then (Inl NoPlayersInRoom, rooms)
              else (Inr (MessageReply ''Quiz started successfully''),
                    rooms(payloadRoomId \<mapsto> room\<lparr>quizStarted := True\<rparr>)))
      | None \<Rightarrow> (Inl RoomNotFound, rooms))"

definition playerJoin :: "string \<Rightarrow> registry \<Rightarrow> string \<Rightarrow> string \<Rightarrow> response" where
  "playerJoin socketId rooms payloadRoomId payloadName =
     (case rooms payloadRoomId of
        Some room \<Rightarrow>
          if quizStarted room then (Inl QuizAlreadyStarted, rooms)
          else if map_of (players room) socketId \<noteq> None then (Inr (RoomReply room), rooms)
          else
            (let room' =
                   room\<lparr>players :=
                          AList.update socketId (initializePlayer payloadName) (players room)\<rparr>
             in (Inr (RoomReply room'), rooms(payloadRoomId \<mapsto> room')))
      | None \<Rightarrow> (Inl RoomNotFound, rooms))"

definition nextQuestion :: "registry \<Rightarrow> string \<Rightarrow> int \<Rightarrow> response" where
  "nextQuestion rooms payloadRoomId payloadQuestionId =
     (case rooms payloadRoomId of
        Some room \<Rightarrow>
          (let room' =
                 room\<lparr>currentProgress :=
                        (currentProgress room)\<lparr>currentQuestion := payloadQuestionId\<rparr>\<rparr>
           in (Inr (RoomReply room'), rooms(payloadRoomId \<mapsto> room')))
      | None \<Rightarrow> (Inl RoomNotFound, rooms))"

definition endOfRound :: "registry \<Rightarrow> string \<Rightarrow> response" where
  "endOfRound rooms payloadRoomId =
     (case rooms payloadRoomId of
        Some room \<Rightarrow>
          (let room' = calculateRankings room
           in (Inr (RoomReply room'), rooms(payloadRoomId \<mapsto> room')))
      | None \<Rightarrow> (Inl RoomNotFound, rooms))"

definition endOfGame :: "registry \<Rightarrow> string \<Rightarrow> response" where
  "endOfGame rooms payloadRoomId =
     (case rooms payloadRoomId of
        Some room \<Rightarrow>
          (let room' = calculateRankings room
           in (Inr (RoomReply room'), rooms(payloadRoomId \<mapsto> room')))
      | None \<Rightarrow> (Inl RoomNotFound, rooms))"

text \<open>The reset \<^verbatim>\<open>nextRound\<close> applies to each player, by \<^verbatim>\<open>Object.keys(room.players).forEach\<close>.\<close>

definition resetPlayer :: "player \<Rightarrow> player" where
  "resetPlayer p = p\<lparr>currentRoundScore := 0, currentRoundAnswers := Map.empty, endOfRoundRank := None\<rparr>"

definition nextRound :: "triviaApi \<Rightarrow> (nat \<Rightarrow> nat \<Rightarrow> rat) \<Rightarrow> registry \<Rightarrow> string \<Rightarrow> response" where
  "nextRound api random rooms payloadRoomId =
     (case rooms payloadRoomId of
        Some room \<Rightarrow>
          (case generateRound api random (currentRound (currentProgress room)) (rounds room)
                  (mode room) (questionPerRound room) room of
             Inl e \<Rightarrow> (Inl FailedToGenerateNextRound, rooms)
           | Inr (newQuestions, room1) \<Rightarrow>
               (let room2 =
                      room1\<lparr>currentProgress :=
                               (currentProgress room1)
                                 \<lparr>roundQuestions := newQuestions, currentQuestion := 1\<rparr>\<rparr>;
                    room3 =
                      room2\<lparr>players :=
                               fold (\<lambda>playerId ps. AList.map_entry playerId resetPlayer ps)
                                 (map fst (players room2)) (players room2)\<rparr>
                in (Inr (RoomReply room3), rooms(payloadRoomId \<mapsto> room3))))
      | None \<Rightarrow> (Inl RoomNotFound, rooms))"

text \<open>
  \<^verbatim>\<open>currentQuestion.allAnswers[playerAnswer - 1]\<close>: \<^verbatim>\<open>undefined\<close> (\<open>None\<close>) out of range.
\<close>

definition answerAt :: "string list \<Rightarrow> int \<Rightarrow> string option" where
  "answerAt answers i =
     (if 0 \<le> i \<and> i < int (length answers) then Some (answers ! nat i) else None)"

text \<open>
  \<^verbatim>\<open>submitAnswer\<close>. \<^verbatim>\<open>roundQuestions[currentQid]\<close> throws a TypeError on \<^verbatim>\<open>null\<close>; on the string
  \<^verbatim>\<open>"end of round"\<close> (12 characters) it is a one-character string for an index in \<open>0..11\<close>,
  which is truthy and has no \<^verbatim>\<open>allAnswers\<close>, so that \<^verbatim>\<open>currentQuestion.allAnswers[...]\<close> throws
  a TypeError, and \<^verbatim>\<open>undefined\<close> for any other index. Nothing was mutated before a throw.
\<close>

definition submitAnswer :: "string \<Rightarrow> registry \<Rightarrow> string \<Rightarrow> int \<Rightarrow> response" where
  "submitAnswer socketId rooms payloadRoomId payloadAnswer =
     (case rooms payloadRoomId of
        Some room \<Rightarrow>
          (case map_of (players room) socketId of
             None \<Rightarrow> (Inl PlayerNotFound, rooms)
           | Some player \<Rightarrow>
               (let currentQid = currentQuestion (currentProgress room)
                in case roundQuestions (currentProgress room) of
                     NullQuestions \<Rightarrow> (Inl UncaughtTypeError, rooms)
                   | EndOfRoundString \<Rightarrow>
                       if 0 \<le> currentQid \<and> currentQid < 12 then (Inl UncaughtTypeError, rooms)
                       else (Inl NoActiveQuestion, rooms)
                   | FormattedQuestions questions \<Rightarrow>
                       (case questions currentQid of
                          None \<Rightarrow> (Inl NoActiveQuestion, rooms)
                        | Some currentQuestionObj \<Rightarrow>
                            (let correctAnswer = correct_answer currentQuestionObj;
                                 playerAnswer = payloadAnswer;
                                 selectedAnswer =
                                   answerAt (allAnswers currentQuestionObj) (playerAnswer - 1);
                                 isCorrect = (selectedAnswer = Some correctAnswer);
                                 player1 =
                                   player\<lparr>currentRoundAnswers :=
                                            (currentRoundAnswers player)(currentQid \<mapsto> isCorrect)\<rparr>;
                                 player2 =
                                   (if selectedAnswer = Some correctAnswer
                                    then player1\<lparr>currentRoundScore := currentRoundScore player1 + 1,
                                                 totalScore := totalScore player1 + 1\<rparr>
                                    else player1);
                                 room' = room\<lparr>players := AList.update socketId player2 (players room)\<rparr>
                             in (Inr (MessageReply ''Answer submitted successfully.''),
                                 rooms(payloadRoomId \<mapsto> room'))))))
      | None \<Rightarrow> (Inl RoomNotFound, rooms))"

text \<open>
  The events \<^verbatim>\<open>roomHandler\<close> registers with \<^verbatim>\<open>socket.on\<close>, each with its payload, and the
  dispatch to the handlers. The environment of one event: the random source of the room
  code, the provider, the random source of the shuffles.
\<close>

datatype event =
  RoomCreate "nat option" "nat option" "int list" int
  | QuizStart string
  | PlayerJoin string string
  | QuizNextQuestion string int
  | QuizEndOfRound string
  | QuizNextRound string
  | SubmitAnswer string int
  | QuizEndOfGame string

definition roomHandler ::
  "(nat \<Rightarrow> rat) \<Rightarrow> triviaApi \<Rightarrow> (nat \<Rightarrow> nat \<Rightarrow> rat) \<Rightarrow> string \<Rightarrow> event \<Rightarrow> registry \<Rightarrow>
   response option" where
  "roomHandler idRandom api random socketId ev rooms =
     (case ev of
        RoomCreate questionTimeLimitArg questionPerRoundArg roundsArg modeArg \<Rightarrow>
          create idRandom api random socketId rooms questionTimeLimitArg questionPerRoundArg
            roundsArg modeArg
      | QuizStart r \<Rightarrow> Some (startQuiz rooms r)
      | PlayerJoin r playerName \<Rightarrow> Some (playerJoin socketId rooms r playerName)
      | QuizNextQuestion r questionId \<Rightarrow> Some (nextQuestion rooms r questionId)
      | QuizEndOfRound r \<Rightarrow> Some (endOfRound rooms r)
      | QuizNextRound r \<Rightarrow> Some (nextRound api random rooms r)
      | SubmitAnswer r answer \<Rightarrow> Some (submitAnswer socketId rooms r answer)
      | QuizEndOfGame r \<Rightarrow> Some (endOfGame rooms r))"

section \<open>Rooms and environments for running the handlers\<close>

text \<open>
  A room in progress: plan \<open>[10, 10, 12]\<close>, one player, one question whose second answer
  is the correct one.
\<close>

definition demoQuestion :: formattedQuestion where
  "demoQuestion = \<lparr>question = ''Q'', correct_answer = ''B'', allAnswers = [''A'', ''B'', ''C'', ''D'']\<rparr>"

definition demoRoom :: room where
  "demoRoom =
     \<lparr>roomId = ''100000'', gameMaster = ''gm'', questionTimeLimit = 0, questionPerRound = 1,
      mode = 1, rounds = [10, 10, 12], players = [(''s1'', initializePlayer ''Ann'')],
      quizStarted = True,
      currentProgress =
        \<lparr>currentRound = CategoryId 10, currentQuestion = 1,
         roundQuestions = FormattedQuestions [1 \<mapsto> demoQuestion]\<rparr>\<rparr>"

definition demoRooms :: registry where
  "demoRooms = [''100000'' \<mapsto> demoRoom]"

text \<open>The same room before the quiz has started.\<close>

definition lobbyRoom :: room where
  "lobbyRoom = demoRoom\<lparr>quizStarted := False\<rparr>"

text \<open>
  A provider that has one question for category 10 and fails for any other category, and a
  random source for the shuffles that always returns 0.
\<close>

definition demoApi :: triviaApi where
  "demoApi amount cat d =
     (if cat = CategoryId 10 then Some [QuestionData ''Q'' ''B'' [''A'', ''C'', ''D'']] else None)"

definition zeroSource :: "nat \<Rightarrow> nat \<Rightarrow> rat" where
  "zeroSource index i = 0"

text \<open>A room as \<^verbatim>\<open>createRoom\<close> builds it, before the first round is generated.\<close>

definition blankRoom :: room where
  "blankRoom =
     \<lparr>roomId = ''100000'', gameMaster = ''gm'', questionTimeLimit = 0, questionPerRound = 5,
      mode = 1, rounds = [9, 10, 12], players = [], quizStarted = False,
      currentProgress =
        \<lparr>currentRound = Null, currentQuestion = 1, roundQuestions = NullQuestions\<rparr>\<rparr>"

text \<open>
  A room in the middle of a round: two players with scores, recorded answers and ranks,
  and the third of three questions current.
\<close>

definition playedRoom :: room where
  "playedRoom =
     demoRoom
       \<lparr>players :=
          [(''s1'', \<lparr>name = ''Ann'', currentRoundScore = 2, totalScore = 5,
                    currentRoundAnswers = [1 \<mapsto> True, 2 \<mapsto> True],
                    endOfRoundRank = Some 1, overallRank = Some 2\<rparr>),
           (''s2'', \<lparr>name = ''Bob'', currentRoundScore = 1, totalScore = 7,
                    currentRoundAnswers = [1 \<mapsto> False, 2 \<mapsto> True],
                    endOfRoundRank = Some 2, overallRank = Some 1\<rparr>)],
        currentProgress :=
          \<lparr>currentRound = CategoryId 10, currentQuestion = 3,
           roundQuestions =
             FormattedQuestions [1 \<mapsto> demoQuestion, 2 \<mapsto> demoQuestion, 3 \<mapsto> demoQuestion]\<rparr>\<rparr>"

section \<open>Notions used in the statements\<close>

text \<open>
  The value of \<^verbatim>\<open>currentRank\<close> when the loop assigns at index \<open>i\<close> (a device of the
  proofs; the loop itself is \<open>assignRanks\<close>).
\<close>

primrec rankAfter :: "(string \<times> int) list \<Rightarrow> nat \<Rightarrow> nat" where
  "rankAfter rankings 0 = 1"
| "rankAfter rankings (Suc i) =
     (if snd (rankings ! Suc i) \<noteq> snd (rankings ! i) then Suc i + 1 else rankAfter rankings i)"

text \<open>A player's rank fields, read from the players object by key (\<open>None\<close> is \<^verbatim>\<open>null\<close>).\<close>

definition endOfRoundRankOf :: "(string \<times> player) list \<Rightarrow> string \<Rightarrow> nat option" where
  "endOfRoundRankOf ps playerId =
     (case map_of ps playerId of Some p \<Rightarrow> endOfRoundRank p | None \<Rightarrow> None)"

definition overallRankOf :: "(string \<times> player) list \<Rightarrow> string \<Rightarrow> nat option" where
  "overallRankOf ps playerId =
     (case map_of ps playerId of Some p \<Rightarrow> overallRank p | None \<Rightarrow> None)"

text \<open>
  The ranking scheme in the words of the specification, for a sorted array \<open>rankings\<close> of
  (player, score) and a reading \<open>rankOf\<close> of the ranks: the first player has rank 1; a
  later player has the rank of the previous player when their scores are equal, and
  otherwise its 1-based position.
\<close>

definition positionRanks :: "(string \<times> int) list \<Rightarrow> (string \<Rightarrow> nat option) \<Rightarrow> bool" where
  "positionRanks rankings rankOf =
     (\<forall>i<length rankings.
        (i = 0 \<longrightarrow> rankOf (fst (rankings ! i)) = Some 1)
        \<and> (0 < i \<and> snd (rankings ! i) = snd (rankings ! (i - 1)) \<longrightarrow>
             rankOf (fst (rankings ! i)) = rankOf (fst (rankings ! (i - 1))))
        \<and> (0 < i \<and> snd (rankings ! i) \<noteq> snd (rankings ! (i - 1)) \<longrightarrow>
             rankOf (fst (rankings ! i)) = Some (i + 1)))"

text \<open>Three players, joined with round scores 7, 10, 10 and total scores 12, 20, 15.\<close>

definition rankedRoom :: room where
  "rankedRoom =
     demoRoom\<lparr>players :=
       [(''s1'', (initializePlayer ''Ann'')\<lparr>currentRoundScore := 7, totalScore := 12\<rparr>),
        (''s2'', (initializePlayer ''Bob'')\<lparr>currentRoundScore := 10, totalScore := 20\<rparr>),
        (''s3'', (initializePlayer ''Cy'')\<lparr>currentRoundScore := 10, totalScore := 15\<rparr>)]\<rparr>"

text \<open>\<^verbatim>\<open>const rooms = new Map();\<close> in \<^verbatim>\<open>index.js\<close>.\<close>

definition initialRooms :: registry where
  "initialRooms = Map.empty"

text \<open>
  The invariant of the current question index: when \<^verbatim>\<open>roundQuestions\<close> is a question
  object, \<^verbatim>\<open>currentQuestion\<close> is one of its keys; for every room of a registry.
\<close>

definition questionIndexValid :: "room \<Rightarrow> bool" where
  "questionIndexValid room =
     (case roundQuestions (currentProgress room) of
        FormattedQuestions questions \<Rightarrow> questions (currentQuestion (currentProgress room)) \<noteq> None
      | _ \<Rightarrow> True)"

definition registryValid :: "registry \<Rightarrow> bool" where
  "registryValid rooms = (\<forall>r room. rooms r = Some room \<longrightarrow> questionIndexValid room)"

text \<open>The provider never answers with an empty list of questions.\<close>

definition nonEmptyProvider :: "triviaApi \<Rightarrow> bool" where
  "nonEmptyProvider api = (\<forall>amount cat d. api amount cat d \<noteq> Some [])"

text \<open>
  The event is not a \<^verbatim>\<open>quiz:nextQuestion\<close> whose \<^verbatim>\<open>questionId\<close> is no key of the question
  object of the room it addresses.
\<close>

definition validAdvance :: "event \<Rightarrow> registry \<Rightarrow> bool" where
  "validAdvance ev rooms =
     (\<forall>r questionId room questions.
        ev = QuizNextQuestion r questionId \<and> rooms r = Some room
        \<and> roundQuestions (currentProgress room) = FormattedQuestions questions
        \<longrightarrow> questions questionId \<noteq> None)"

text \<open>The room that \<^verbatim>\<open>room:create\<close> makes in the empty registry, and that room advanced to question 7.\<close>

definition createdRoom :: room where
  "createdRoom =
     \<lparr>roomId = ''100000'', gameMaster = ''gm'', questionTimeLimit = 0, questionPerRound = 5,
      mode = 1, rounds = [10, 10, 12], players = [], quizStarted = False,
      currentProgress =
        \<lparr>currentRound = CategoryId 10, currentQuestion = 1,
         roundQuestions =
           FormattedQuestions
             (formatQuestions zeroSource [QuestionData ''Q'' ''B'' [''A'', ''C'', ''D'']])\<rparr>\<rparr>"

definition advancedRoom :: room where
  "advancedRoom = createdRoom\<lparr>currentProgress := (currentProgress createdRoom)\<lparr>currentQuestion := 7\<rparr>\<rparr>"

section \<open>Properties of the rounding\<close>

lemma exponentAbove_nonneg: "0 \<le> exponentAbove n x"
  by (induction n arbitrary: x) auto

lemma exponentAbove_le: "x < 2 ^ (k + 1) \<Longrightarrow> exponentAbove n x \<le> int k"
proof (induction n arbitrary: x k)
  case 0
  then show ?case by simp
next
  case (Suc n)
  show ?case
  proof (cases "x < 2")
    case True
    then show ?thesis by simp
  next
    case False
    with Suc.prems obtain k' where k: "k = Suc k'" by (cases k) auto
    with Suc.prems have "x / 2 < 2 ^ (k' + 1)" by simp
    then have "exponentAbove n (x / 2) \<le> int k'" by (rule Suc.IH)
    with False k show ?thesis by simp
  qed
qed

lemma exponentAbove_ge: "2 ^ k \<le> x \<Longrightarrow> k \<le> n \<Longrightarrow> int k \<le> exponentAbove n x"
proof (induction n arbitrary: x k)
  case 0
  then show ?case by simp
next
  case (Suc n)
  show ?case
  proof (cases k)
    case 0
    then show ?thesis using exponentAbove_nonneg [of "Suc n" x] by simp
  next
    case (Suc k')
    have "(1::rat) \<le> 2 ^ k'" by simp
    then have "(2::rat) \<le> 2 ^ Suc k'" by simp
    moreover from Suc Suc.prems have "2 ^ Suc k' \<le> x" by simp
    ultimately have x: "\<not> x < 2" by linarith
    from Suc Suc.prems have "2 ^ k' \<le> x / 2" "k' \<le> n" by simp_all
    then have "int k' \<le> exponentAbove n (x / 2)" by (rule Suc.IH)
    with x Suc show ?thesis by simp
  qed
qed

lemma exponentBelow_nonpos: "exponentBelow n x \<le> 0"
proof (induction n arbitrary: x)
  case 0
  then show ?case by simp
next
  case (Suc n)
  from Suc [of "2 * x"] show ?case by simp
qed

lemma exponentBelow_neg: "x < 1 \<Longrightarrow> exponentBelow (Suc n) x \<le> - 1"
  using exponentBelow_nonpos [of n "2 * x"] by simp

lemma binade_le: "x < 2 ^ (k + 1) \<Longrightarrow> binade x \<le> int k"
  using exponentBelow_nonpos [of 1022 x] by (auto simp: binade_def exponentAbove_le)

lemma binade_eq:
  assumes "2 ^ k \<le> x" and "x < 2 ^ (k + 1)" and "k \<le> 1023"
  shows "binade x = int k"
proof -
  from assms(1) have "1 \<le> x"
    using one_le_power [of "2::rat" k] by linarith
  then have "binade x = exponentAbove 1023 x" by (simp add: binade_def)
  moreover have "exponentAbove 1023 x \<le> int k" using assms(2) by (rule exponentAbove_le)
  moreover have "int k \<le> exponentAbove 1023 x" using assms(1,3) by (rule exponentAbove_ge)
  ultimately show ?thesis by simp
qed

lemma binade_below_one: "x < 1 \<Longrightarrow> binade x \<le> - 1"
proof -
  assume "x < 1"
  then have "binade x = exponentBelow (Suc 1021) x" by (simp add: binade_def)
  with \<open>x < 1\<close> exponentBelow_neg [of x 1021] show ?thesis by simp
qed

lemma exponentBelow_half:
  "1 / 2 \<le> x \<Longrightarrow> x < 1 \<Longrightarrow> exponentBelow (Suc (Suc n)) x = - 1"
  by simp

lemma binade_half:
  assumes "1 / 2 \<le> x" and "x < 1"
  shows "binade x = - 1"
proof -
  have "(1022::nat) = Suc (Suc 1020)" by simp
  then have "exponentBelow 1022 x = exponentBelow (Suc (Suc 1020)) x" by (rule arg_cong)
  with assms show ?thesis
    by (simp only: binade_def exponentBelow_half) simp
qed

lemma ulp_pos: "0 < ulp x"
  by (simp add: ulp_def)

lemma roundTiesToEven_cases:
  "(roundTiesToEven q = \<lfloor>q\<rfloor> \<and> q - of_int \<lfloor>q\<rfloor> \<le> 1 / 2)
   \<or> (roundTiesToEven q = \<lfloor>q\<rfloor> + 1 \<and> 1 / 2 \<le> q - of_int \<lfloor>q\<rfloor>)"
  by (auto simp: roundTiesToEven_def Let_def)

lemma roundTiesToEven_ge: "of_int n \<le> q \<Longrightarrow> n \<le> roundTiesToEven q"
proof -
  assume "of_int n \<le> q"
  then have "n \<le> \<lfloor>q\<rfloor>" by (simp add: le_floor_iff)
  with roundTiesToEven_cases [of q] show ?thesis by auto
qed

lemma roundTiesToEven_le: "q \<le> of_int n \<Longrightarrow> roundTiesToEven q \<le> n"
proof -
  assume q: "q \<le> of_int n"
  from roundTiesToEven_cases [of q] show ?thesis
  proof
    assume "roundTiesToEven q = \<lfloor>q\<rfloor> \<and> q - of_int \<lfloor>q\<rfloor> \<le> 1 / 2"
    with q show ?thesis by (simp add: floor_le_iff)
  next
    assume a: "roundTiesToEven q = \<lfloor>q\<rfloor> + 1 \<and> 1 / 2 \<le> q - of_int \<lfloor>q\<rfloor>"
    then have "of_int \<lfloor>q\<rfloor> < q" by linarith
    with q have "of_int \<lfloor>q\<rfloor> < (of_int n :: rat)" by linarith
    then have "\<lfloor>q\<rfloor> < n" by simp
    with a show ?thesis by simp
  qed
qed

lemma roundTiesToEven_le_half: "q < of_int n + 1 / 2 \<Longrightarrow> roundTiesToEven q \<le> n"
proof -
  assume q: "q < of_int n + 1 / 2"
  from roundTiesToEven_cases [of q] show ?thesis
  proof
    assume a: "roundTiesToEven q = \<lfloor>q\<rfloor> \<and> q - of_int \<lfloor>q\<rfloor> \<le> 1 / 2"
    have "of_int \<lfloor>q\<rfloor> \<le> q" by simp
    with q have "of_int \<lfloor>q\<rfloor> < (of_int n :: rat) + 1" by linarith
    then have "\<lfloor>q\<rfloor> < n + 1" by (metis of_int_1 of_int_add of_int_less_iff)
    with a show ?thesis by simp
  next
    assume a: "roundTiesToEven q = \<lfloor>q\<rfloor> + 1 \<and> 1 / 2 \<le> q - of_int \<lfloor>q\<rfloor>"
    with q have "of_int \<lfloor>q\<rfloor> < (of_int n :: rat)" by linarith
    then have "\<lfloor>q\<rfloor> < n" by simp
    with a show ?thesis by simp
  qed
qed

lemma roundTiesToEven_ge_half: "of_int n - 1 / 2 < q \<Longrightarrow> n \<le> roundTiesToEven q"
proof -
  assume q: "of_int n - 1 / 2 < q"
  from roundTiesToEven_cases [of q] show ?thesis
  proof
    assume a: "roundTiesToEven q = \<lfloor>q\<rfloor> \<and> q - of_int \<lfloor>q\<rfloor> \<le> 1 / 2"
    with q have "(of_int n :: rat) - 1 < of_int \<lfloor>q\<rfloor>" by linarith
    then have "n - 1 < \<lfloor>q\<rfloor>" by (metis of_int_1 of_int_diff of_int_less_iff)
    with a show ?thesis by simp
  next
    assume a: "roundTiesToEven q = \<lfloor>q\<rfloor> + 1 \<and> 1 / 2 \<le> q - of_int \<lfloor>q\<rfloor>"
    have "q < of_int \<lfloor>q\<rfloor> + 1" by linarith
    with q have "(of_int n :: rat) - 1 < of_int \<lfloor>q\<rfloor> + 1" by linarith
    then have "(of_int (n - 1) :: rat) < of_int (\<lfloor>q\<rfloor> + 1)" by simp
    then have "n - 1 < \<lfloor>q\<rfloor> + 1" by (simp only: of_int_less_iff)
    with a show ?thesis by simp
  qed
qed

lemma grid_multiple:
  assumes "binade x \<le> K"
  shows "of_int b * 2 powi (K - 52) = of_int (b * 2 ^ nat (K - binade x)) * ulp x"
proof -
  have "(2::rat) powi (K - 52) = 2 powi (K - binade x) * 2 powi (binade x - 52)"
    by (simp add: power_int_add [symmetric])
  moreover have "(2::rat) powi (K - binade x) = 2 ^ nat (K - binade x)"
    using assms by (simp add: power_int_def)
  ultimately show ?thesis by (simp add: ulp_def)
qed

lemma roundDouble_le:
  assumes "binade x \<le> K" and "x \<le> of_int b * 2 powi (K - 52)"
  shows "roundDouble x \<le> of_int b * 2 powi (K - 52)"
proof -
  define n where "n = b * 2 ^ nat (K - binade x)"
  have g: "of_int b * 2 powi (K - 52) = of_int n * ulp x"
    unfolding n_def using assms(1) by (rule grid_multiple)
  with assms(2) have "x / ulp x \<le> of_int n"
    using ulp_pos [of x] by (simp add: pos_divide_le_eq)
  then have "roundTiesToEven (x / ulp x) \<le> n" by (rule roundTiesToEven_le)
  then have "(of_int (roundTiesToEven (x / ulp x)) :: rat) \<le> of_int n" by simp
  then show ?thesis
    unfolding roundDouble_def g using ulp_pos [of x] by (simp only: mult_le_cancel_right_pos)
qed

lemma roundDouble_ge:
  assumes "binade x \<le> K" and "of_int b * 2 powi (K - 52) \<le> x"
  shows "of_int b * 2 powi (K - 52) \<le> roundDouble x"
proof -
  define n where "n = b * 2 ^ nat (K - binade x)"
  have g: "of_int b * 2 powi (K - 52) = of_int n * ulp x"
    unfolding n_def using assms(1) by (rule grid_multiple)
  with assms(2) have "of_int n \<le> x / ulp x"
    using ulp_pos [of x] by (simp add: pos_le_divide_eq)
  then have "n \<le> roundTiesToEven (x / ulp x)" by (rule roundTiesToEven_ge)
  then have "(of_int n :: rat) \<le> of_int (roundTiesToEven (x / ulp x))" by simp
  then show ?thesis
    unfolding roundDouble_def g using ulp_pos [of x] by (simp only: mult_le_cancel_right_pos)
qed

lemma roundDouble_exact:
  assumes "binade x \<le> K" and "x = of_int b * 2 powi (K - 52)"
  shows "roundDouble x = x"
  using roundDouble_le [OF assms(1), of b] roundDouble_ge [OF assms(1), of b] assms(2) by simp

lemma binade_le19: "x < 2 ^ 20 \<Longrightarrow> binade x \<le> 19"
proof -
  assume "x < 2 ^ 20"
  then have "x < 2 ^ (19 + 1)" by simp
  then have "binade x \<le> int 19" by (rule binade_le)
  then show ?thesis by simp
qed

lemma roundDouble_le19:
  assumes "x < 2 ^ 20" and "x \<le> of_int b / 2 ^ 33"
  shows "roundDouble x \<le> of_int b / 2 ^ 33"
proof -
  from assms(1) have "binade x \<le> 19" by (rule binade_le19)
  from roundDouble_le [OF this, of b] assms(2) show ?thesis
    by (simp add: inverse_eq_divide)
qed

lemma roundDouble_ge19:
  assumes "x < 2 ^ 20" and "of_int b / 2 ^ 33 \<le> x"
  shows "of_int b / 2 ^ 33 \<le> roundDouble x"
proof -
  from assms(1) have "binade x \<le> 19" by (rule binade_le19)
  from roundDouble_ge [OF this, of b] assms(2) show ?thesis
    by (simp add: inverse_eq_divide)
qed

lemma double_below_one:
  assumes "roundDouble r = r" and "r < 1"
  shows "r \<le> 1 - 1 / 2 ^ 53"
proof (cases "r < 1 / 2")
  case True
  then show ?thesis by simp
next
  case False
  then have "1 / 2 \<le> r" by simp
  then have "binade r = - 1" using assms(2) by (rule binade_half)
  then have u: "ulp r = 1 / 2 ^ 53"
    by (simp add: ulp_def inverse_eq_divide)
  define n where "n = roundTiesToEven (r / ulp r)"
  from assms(1) have "of_int n * ulp r = r"
    by (simp only: roundDouble_def n_def)
  then have r: "r = of_int n / 2 ^ 53"
    by (simp only: u) simp
  with assms(2) have "(of_int n :: rat) < 2 ^ 53" by simp
  then have "(of_int n :: rat) < of_int (2 ^ 53)" by simp
  then have "n < 2 ^ 53" by (simp only: of_int_less_iff)
  then have "n \<le> 2 ^ 53 - 1" by simp
  then have "(of_int n :: rat) \<le> of_int (2 ^ 53 - 1)" by (simp only: of_int_le_iff)
  then show ?thesis unfolding r by (simp add: field_simps)
qed

lemma product_bound:
  assumes "0 \<le> r" and "r \<le> 1 - 1 / 2 ^ 53"
  shows "0 \<le> roundDouble (r * 900000)" and "roundDouble (r * 900000) \<le> 900000 - 1 / 2 ^ 33"
proof -
  define x where "x = r * 900000"
  from assms have x: "0 \<le> x" "x \<le> (1 - 1 / 2 ^ 53) * 900000" by (simp_all add: x_def)
  then have small: "x < 2 ^ 20" by simp
  from roundDouble_ge19 [OF small, of 0] x(1) show "0 \<le> roundDouble (r * 900000)"
    by (simp add: x_def)
  show "roundDouble (r * 900000) \<le> 900000 - 1 / 2 ^ 33"
  proof (cases "x < 2 ^ 19")
    case True
    then have "x < 2 ^ (18 + 1)" by simp
    then have "binade x \<le> int 18" by (rule binade_le)
    then have "binade x \<le> 18" by simp
    from roundDouble_le [OF this, of "2 ^ 53"] True have "roundDouble x \<le> 2 ^ 19"
      by (simp add: inverse_eq_divide)
    then show ?thesis by (simp add: x_def)
  next
    case False
    then have "2 ^ 19 \<le> x" by simp
    moreover from small have "x < 2 ^ (19 + 1)" by simp
    ultimately have "binade x = int 19" by (rule binade_eq) simp
    then have "binade x = 19" by simp
    then have u: "ulp x = 1 / 2 ^ 33"
      by (simp add: ulp_def inverse_eq_divide)
    from x(2) have "x / ulp x < of_int (900000 * 2 ^ 33 - 1) + 1 / 2"
      unfolding u by simp
    then have "roundTiesToEven (x / ulp x) \<le> 900000 * 2 ^ 33 - 1"
      by (rule roundTiesToEven_le_half)
    then have "(of_int (roundTiesToEven (x / ulp x)) :: rat) \<le> of_int (900000 * 2 ^ 33 - 1)"
      by (simp only: of_int_le_iff)
    then have "roundDouble x \<le> 900000 - 1 / 2 ^ 33"
      unfolding roundDouble_def u by (simp add: field_simps)
    then show ?thesis by (simp add: x_def)
  qed
qed

lemma sum_bound:
  assumes "0 \<le> y" and "y \<le> 900000 - 1 / 2 ^ 33"
  shows "100000 \<le> roundDouble (100000 + y)" and "roundDouble (100000 + y) \<le> 1000000 - 1 / 2 ^ 33"
proof -
  from assms have small: "100000 + y < 2 ^ 20" by simp
  from roundDouble_ge19 [OF small, of "100000 * 2 ^ 33"] assms(1)
  show "100000 \<le> roundDouble (100000 + y)" by simp
  from roundDouble_le19 [OF small, of "1000000 * 2 ^ 33 - 1"] assms(2)
  show "roundDouble (100000 + y) \<le> 1000000 - 1 / 2 ^ 33" by (simp add: field_simps)
qed

lemma roomNumber_range:
  assumes "0 \<le> r" and "r < 1" and "roundDouble r = r"
  shows "100000 \<le> roomNumber r \<and> roomNumber r \<le> 999999"
proof -
  from assms(2,3) have "r \<le> 1 - 1 / 2 ^ 53" by (intro double_below_one)
  from product_bound [OF assms(1) this]
  have "100000 \<le> roundDouble (100000 + roundDouble (r * 900000))"
    and "roundDouble (100000 + roundDouble (r * 900000)) \<le> 1000000 - 1 / 2 ^ 33"
    by (rule sum_bound)+
  then have "100000 \<le> \<lfloor>roundDouble (100000 + roundDouble (r * 900000))\<rfloor>"
    and "\<lfloor>roundDouble (100000 + roundDouble (r * 900000))\<rfloor> < 1000000"
    by (simp_all add: le_floor_iff floor_less_iff)
  then show ?thesis unfolding roomNumber_def by linarith
qed

lemma roomNumber_between:
  assumes "of_nat k + 1 / 4 \<le> r * 900000" and "r * 900000 \<le> of_nat k + 1 / 2"
    and "k < 900000"
  shows "roomNumber r = 100000 + k"
proof -
  define y where "y = roundDouble (r * 900000)"
  from assms have small: "r * 900000 < 2 ^ 20" by simp
  have "of_int (int (4 * k + 1) * 2 ^ 31) / 2 ^ 33 = (of_nat k :: rat) + 1 / 4"
    by (simp add: field_simps)
  with roundDouble_ge19 [OF small, of "int (4 * k + 1) * 2 ^ 31"] assms(1)
  have lo: "of_nat k + 1 / 4 \<le> y" unfolding y_def by simp
  have "of_int (int (2 * k + 1) * 2 ^ 32) / 2 ^ 33 = (of_nat k :: rat) + 1 / 2"
    by (simp add: field_simps)
  with roundDouble_le19 [OF small, of "int (2 * k + 1) * 2 ^ 32"] assms(2)
  have hi: "y \<le> of_nat k + 1 / 2" unfolding y_def by simp
  from hi assms(3) have small': "100000 + y < 2 ^ 20" by simp
  have "of_int (int (4 * (100000 + k) + 1) * 2 ^ 31) / 2 ^ 33 = (of_nat (100000 + k) :: rat) + 1 / 4"
    by (simp add: field_simps)
  with roundDouble_ge19 [OF small', of "int (4 * (100000 + k) + 1) * 2 ^ 31"] lo
  have lo': "of_nat (100000 + k) \<le> roundDouble (100000 + y)" by simp
  have "of_int (int (2 * (100000 + k) + 1) * 2 ^ 32) / 2 ^ 33 = (of_nat (100000 + k) :: rat) + 1 / 2"
    by (simp add: field_simps)
  with roundDouble_le19 [OF small', of "int (2 * (100000 + k) + 1) * 2 ^ 32"] hi
  have hi': "roundDouble (100000 + y) < of_nat (100000 + k) + 1" by simp
  from lo' hi' have "\<lfloor>roundDouble (100000 + y)\<rfloor> = int (100000 + k)"
    by (intro floor_unique) simp_all
  then show ?thesis unfolding roomNumber_def y_def by simp
qed

lemma cyclicSource_bounds:
  defines "k \<equiv> \<lambda>i. i mod 900000"
  shows "of_nat (k i) + 1 / 4 \<le> cyclicSource i * 900000"
    and "cyclicSource i * 900000 \<le> of_nat (k i) + 1 / 2"
proof -
  define t :: rat where "t = of_nat (4 * k i + 1) * 2 ^ 51 / 900000"
  define m where "m = \<lceil>t\<rceil>"
  have c: "cyclicSource i = of_int m / 2 ^ 53"
    by (simp add: cyclicSource_def m_def t_def k_def)
  have "t \<le> of_int m" unfolding m_def by simp
  then have "t * 900000 / 2 ^ 53 \<le> of_int m / 2 ^ 53 * 900000" by (simp add: field_simps)
  moreover have "t * 900000 / 2 ^ 53 = of_nat (k i) + 1 / 4" by (simp add: t_def field_simps)
  ultimately show "of_nat (k i) + 1 / 4 \<le> cyclicSource i * 900000" by (simp add: c)
  have "of_int m < t + 1" unfolding m_def by linarith
  then have "of_int m / 2 ^ 53 * 900000 < (t + 1) * 900000 / 2 ^ 53" by (simp add: field_simps)
  moreover have "(t + 1) * 900000 / 2 ^ 53 = of_nat (k i) + 1 / 4 + 900000 / 2 ^ 53"
    by (simp add: t_def field_simps)
  ultimately show "cyclicSource i * 900000 \<le> of_nat (k i) + 1 / 2" by (simp add: c)
qed

lemma cyclicSource_roomNumber: "roomNumber (cyclicSource i) = 100000 + i mod 900000"
  by (rule roomNumber_between [OF cyclicSource_bounds]) simp

lemma cyclicSource_double:
  "0 \<le> cyclicSource i" "cyclicSource i < 1" "roundDouble (cyclicSource i) = cyclicSource i"
proof -
  show nonneg: "0 \<le> cyclicSource i"
    by (simp add: cyclicSource_def)
  have "i mod 900000 < 900000" by simp
  then have "i mod 900000 \<le> 899999" by linarith
  then have "(of_nat (i mod 900000) :: rat) \<le> of_nat 899999" by (simp only: of_nat_le_iff)
  then have "(of_nat (i mod 900000) :: rat) \<le> 899999" by simp
  with cyclicSource_bounds(2) [of i] have "cyclicSource i * 900000 < 900000" by linarith
  then show lt: "cyclicSource i < 1" by simp
  then have "binade (cyclicSource i) \<le> - 1" by (rule binade_below_one)
  then show "roundDouble (cyclicSource i) = cyclicSource i"
    by (rule roundDouble_exact [of _ _ "\<lceil>of_nat (4 * (i mod 900000) + 1) * 2 ^ 51 / (900000 :: rat)\<rceil>"])
      (simp add: cyclicSource_def inverse_eq_divide)
qed

lemma roomNumber_rounding:
  "roomNumber (17859274522317 / 2 ^ 52) = 103569"
  "\<lfloor>100000 + (17859274522317 / 2 ^ 52) * (900000 :: rat)\<rfloor> = 103568"
proof -
  define x :: rat where "x = 17859274522317 / 2 ^ 52 * 900000"
  have "2 ^ 11 \<le> x" "x < 2 ^ (11 + 1)" by (simp_all add: x_def)
  then have "binade x = int 11" by (rule binade_eq) simp
  then have "binade x = 11" by simp
  then have u: "ulp x = 1 / 2 ^ 41"
    by (simp add: ulp_def inverse_eq_divide)
  have q: "x / ulp x = x * 2 ^ 41" by (simp only: u) simp
  have "x * 2 ^ 41 \<le> of_int (3569 * 2 ^ 41)" by (simp add: x_def)
  then have "roundTiesToEven (x / ulp x) \<le> 3569 * 2 ^ 41"
    unfolding q by (rule roundTiesToEven_le)
  moreover have "of_int (3569 * 2 ^ 41) - 1 / 2 < x * 2 ^ 41" by (simp add: x_def)
  then have "3569 * 2 ^ 41 \<le> roundTiesToEven (x / ulp x)"
    unfolding q by (rule roundTiesToEven_ge_half)
  ultimately have "roundTiesToEven (x / ulp x) = 3569 * 2 ^ 41" by simp
  then have y: "roundDouble x = 3569" by (simp add: roundDouble_def u)
  have "binade (103569 :: rat) \<le> 19" by (rule binade_le19) simp
  then have "roundDouble 103569 = 103569"
    by (rule roundDouble_exact [of _ _ "103569 * 2 ^ 33"]) (simp add: inverse_eq_divide)
  with y have "nat \<lfloor>roundDouble (100000 + roundDouble x)\<rfloor> = 103569" by simp
  then show "roomNumber (17859274522317 / 2 ^ 52) = 103569"
    unfolding roomNumber_def x_def .
  show "\<lfloor>100000 + (17859274522317 / 2 ^ 52) * (900000 :: rat)\<rfloor> = 103568"
    by (rule floor_unique) simp_all
qed

section \<open>Properties of the room codes\<close>

lemma digitValue_digitChar: "d < 10 \<Longrightarrow> digitValue (digitChar d) = d"
proof -
  assume "d < 10"
  then consider "d = 0" | "d = 1" | "d = 2" | "d = 3" | "d = 4" | "d = 5" | "d = 6" | "d = 7"
    | "d = 8" | "d = 9" by atomize_elim arith
  then show ?thesis
    by cases (simp_all add: digitValue_def digitChar_def)
qed

lemma isDigit_digitChar: "d < 10 \<Longrightarrow> isDigit (digitChar d)"
proof -
  assume "d < 10"
  then consider "d = 0" | "d = 1" | "d = 2" | "d = 3" | "d = 4" | "d = 5" | "d = 6" | "d = 7"
    | "d = 8" | "d = 9" by atomize_elim arith
  then show ?thesis
    by cases (simp_all add: isDigit_def digitChar_def)
qed

lemma numberOf_snoc: "numberOf (s @ [c]) = 10 * numberOf s + digitValue c"
  by (simp add: numberOf_def)

lemma numberOf_toString: "numberOf (toString n) = n"
proof (induction n rule: toString.induct)
  case (1 n)
  show ?case
  proof (cases "n < 10")
    case True
    then show ?thesis
      by (subst toString.simps) (simp add: numberOf_def digitValue_digitChar)
  next
    case False
    with 1 have "numberOf (toString (n div 10)) = n div 10" by simp
    with False show ?thesis
      by (subst toString.simps) (simp add: numberOf_snoc digitValue_digitChar)
  qed
qed

lemma inj_toString: "inj toString"
  by (rule inj_on_inverseI [where g = numberOf]) (rule numberOf_toString)

lemma digits_toString: "\<forall>c \<in> set (toString n). isDigit c"
proof (induction n rule: toString.induct)
  case (1 n)
  show ?case
  proof (cases "n < 10")
    case True
    then show ?thesis
      by (subst toString.simps) (simp add: isDigit_digitChar)
  next
    case False
    with 1 have "\<forall>c \<in> set (toString (n div 10)). isDigit c" by simp
    with False show ?thesis
      by (subst toString.simps) (simp add: isDigit_digitChar)
  qed
qed

lemma toString_small: "n < 10 \<Longrightarrow> toString n = [digitChar n]"
  by (subst toString.simps) simp

lemma toString_step: "10 \<le> n \<Longrightarrow> toString n = toString (n div 10) @ [digitChar (n mod 10)]"
  by (subst toString.simps) simp

lemma length_toString_small: "n < 10 \<Longrightarrow> length (toString n) = 1"
  by (subst toString.simps) simp

lemma length_toString_step: "10 \<le> n \<Longrightarrow> length (toString n) = Suc (length (toString (n div 10)))"
  by (subst toString.simps) simp

lemma length_toString_six:
  assumes "100000 \<le> n" "n \<le> 999999"
  shows "length (toString n) = 6"
proof -
  have a: "10 \<le> n" "10 \<le> n div 10" "10 \<le> n div 10 div 10" "10 \<le> n div 10 div 10 div 10"
    "10 \<le> n div 10 div 10 div 10 div 10" "n div 10 div 10 div 10 div 10 div 10 < 10"
    using assms by linarith+
  show ?thesis
    using a by (simp add: length_toString_step length_toString_small)
qed

lemma free_code:
  fixes rooms :: "string \<rightharpoonup> 'r"
  assumes fin: "finite (dom rooms)" and small: "card (dom rooms) < 900000"
  shows "\<exists>n. 100000 \<le> n \<and> n \<le> 999999 \<and> rooms (toString n) = None"
proof (rule ccontr)
  assume "\<not> ?thesis"
  then have "toString ` {100000..999999} \<subseteq> dom rooms"
    by (auto simp: dom_def)
  then have "card (toString ` {100000..999999}) \<le> card (dom rooms)"
    using fin by (rule card_mono [rotated])
  moreover have "card (toString ` {100000..999999}) = card {100000..999999::nat}"
    by (rule card_image) (rule inj_on_subset [OF inj_toString], simp)
  ultimately show False using small by simp
qed

lemma loop_returns:
  fixes rooms :: "string \<rightharpoonup> 'r"
  assumes "rooms (sampleRoomId (random (i + k))) = None"
  shows "\<exists>j. generateUniqueRoomId_loop random rooms i = Some (sampleRoomId (random j))
           \<and> rooms (sampleRoomId (random j)) = None"
  using assms
proof (induction k arbitrary: i)
  case 0
  then show ?case
    by (subst generateUniqueRoomId_loop.simps) (auto simp: Let_def)
next
  case (Suc k)
  show ?case
  proof (cases "rooms (sampleRoomId (random i)) = None")
    case True
    then show ?thesis
      by (subst generateUniqueRoomId_loop.simps) (auto simp: Let_def)
  next
    case False
    from Suc.prems have "rooms (sampleRoomId (random (Suc i + k))) = None" by simp
    from Suc.IH [OF this] obtain j where
      "generateUniqueRoomId_loop random rooms (Suc i) = Some (sampleRoomId (random j))"
      "rooms (sampleRoomId (random j)) = None" by blast
    with False show ?thesis
      by (subst generateUniqueRoomId_loop.simps) (auto simp: Let_def)
  qed
qed

lemma cyclicSource_unit: "randomDoubles cyclicSource"
  by (simp add: randomDoubles_def cyclicSource_double)

lemma cyclicSource_every: "samplesEveryCode cyclicSource"
  unfolding samplesEveryCode_def
proof (intro allI impI)
  fix n :: nat assume n: "100000 \<le> n \<and> n \<le> 999999"
  define k where "k = n - 100000"
  from n have "k < 900000" and k2: "100000 + k = n"
    unfolding k_def by linarith+
  then have k1: "k mod 900000 = k" by (intro mod_less)
  have "roomNumber (cyclicSource k) = n"
    by (simp only: cyclicSource_roomNumber k1 k2)
  then show "\<exists>i. roomNumber (cyclicSource i) = n" ..
qed

lemma cyclicSource_samples:
  "sampleRoomId (cyclicSource 0) = ''100000''"
  "sampleRoomId (cyclicSource (Suc 0)) = ''100001''"
proof -
  have "roomNumber (cyclicSource 0) = 100000" "roomNumber (cyclicSource (Suc 0)) = 100001"
    by (simp_all add: cyclicSource_roomNumber)
  then show "sampleRoomId (cyclicSource 0) = ''100000''"
    "sampleRoomId (cyclicSource (Suc 0)) = ''100001''"
    by (simp_all add: sampleRoomId_def toString_small toString_step digitChar_def)
qed

lemma generateUniqueRoomId_loop_fresh:
  assumes "generateUniqueRoomId_loop random rooms i = Some newRoomId"
  shows "rooms newRoomId = None"
  by (rule generateUniqueRoomId_loop.raw_induct
       [where P = "\<lambda>random rooms i newRoomId. rooms newRoomId = None", OF _ assms])
     (auto simp: Let_def split: if_splits)

lemma generateUniqueRoomId_Some_fresh:
  "generateUniqueRoomId random rooms = Some newRoomId \<Longrightarrow> rooms newRoomId = None"
  unfolding generateUniqueRoomId_def by (rule generateUniqueRoomId_loop_fresh)

lemma generateUniqueRoomId_loop_sample:
  assumes "generateUniqueRoomId_loop random rooms i = Some newRoomId"
  shows "\<exists>j. newRoomId = sampleRoomId (random j)"
  by (rule generateUniqueRoomId_loop.raw_induct
       [where P = "\<lambda>random rooms i newRoomId. \<exists>j. newRoomId = sampleRoomId (random j)",
        OF _ assms])
     (auto simp: Let_def split: if_splits)

text \<open>
  The rounding matters: for the double \<open>17859274522317 / 2 ^ 52\<close> the exact value of
  \<open>100000 + r * 900000\<close> lies below 103569, and the code, which rounds the product to the
  double 3569, computes 103569.
\<close>

lemma sampleRoomId_rounded:
  "sampleRoomId (17859274522317 / 2 ^ 52) = ''103569''"
  unfolding sampleRoomId_def roomNumber_rounding(1)
  by (simp add: toString_small toString_step digitChar_def)

text \<open>
  C8. The random source returns doubles in \<open>[0, 1)\<close>. Whatever \<^verbatim>\<open>generateUniqueRoomId\<close>
  returns is a string of six decimal digits, denoting a number from 100000 to 999999, that
  is not a key of the registry. And it does return, for every registry of fewer than 900000
  rooms, when the source samples every code at some call of the loop.
\<close>

theorem generateUniqueRoomId_fresh:
  fixes rooms :: "string \<rightharpoonup> 'r"
  assumes "randomDoubles random"
  shows "(\<forall>roomId. generateUniqueRoomId random rooms = Some roomId \<longrightarrow>
            length roomId = 6 \<and> (\<forall>c \<in> set roomId. isDigit c)
            \<and> 100000 \<le> numberOf roomId \<and> numberOf roomId \<le> 999999
            \<and> rooms roomId = None)
    \<and> (samplesEveryCode random \<and> finite (dom rooms) \<and> card (dom rooms) < 900000 \<longrightarrow>
          (\<exists>roomId. generateUniqueRoomId random rooms = Some roomId))"
proof (intro conjI allI impI)
  fix roomId
  assume g: "generateUniqueRoomId random rooms = Some roomId"
  then obtain j where j: "roomId = sampleRoomId (random j)"
    unfolding generateUniqueRoomId_def by (blast dest: generateUniqueRoomId_loop_sample)
  define m where "m = roomNumber (random j)"
  have r: "100000 \<le> m \<and> m \<le> 999999"
    unfolding m_def using assms by (intro roomNumber_range) (simp_all add: randomDoubles_def)
  have s: "roomId = toString m" by (simp add: j sampleRoomId_def m_def)
  show "length roomId = 6" "\<forall>c \<in> set roomId. isDigit c"
    "100000 \<le> numberOf roomId" "numberOf roomId \<le> 999999"
    using r unfolding s by (simp_all add: length_toString_six digits_toString numberOf_toString)
  show "rooms roomId = None"
    using g by (rule generateUniqueRoomId_Some_fresh)
next
  assume a: "samplesEveryCode random \<and> finite (dom rooms) \<and> card (dom rooms) < 900000"
  then have "finite (dom rooms)" "card (dom rooms) < 900000" by simp_all
  from free_code [OF this] obtain n where
    n: "100000 \<le> n" "n \<le> 999999" "rooms (toString n) = None" by blast
  with a obtain i where "roomNumber (random i) = n"
    unfolding samplesEveryCode_def by blast
  with n have "rooms (sampleRoomId (random (0 + i))) = None"
    by (simp add: sampleRoomId_def)
  from loop_returns [of rooms random 0 i, OF this]
  show "\<exists>roomId. generateUniqueRoomId random rooms = Some roomId"
    unfolding generateUniqueRoomId_def by blast
qed

theorem generateUniqueRoomId_fresh_witness:
  "randomDoubles cyclicSource \<and> samplesEveryCode cyclicSource
   \<and> finite (dom [''100000'' \<mapsto> ()]) \<and> card (dom [''100000'' \<mapsto> ()]) < 900000
   \<and> generateUniqueRoomId cyclicSource [''100000'' \<mapsto> ()] = Some ''100001''
   \<and> length ''100001'' = 6 \<and> 100000 \<le> numberOf ''100001'' \<and> numberOf ''100001'' \<le> 999999
   \<and> [''100000'' \<mapsto> ()] ''100001'' = None
   \<and> (\<exists>roomId. generateUniqueRoomId cyclicSource [''100000'' \<mapsto> ()] = Some roomId)"
proof -
  have a: "finite (dom [''100000'' \<mapsto> ()])" "card (dom [''100000'' \<mapsto> ()]) < 900000"
    by simp_all
  have t0: "toString 100000 = ''100000''"
    by (simp add: toString_small toString_step digitChar_def)
  have t1: "toString 100001 = ''100001''"
    by (simp add: toString_small toString_step digitChar_def)
  note s0 = cyclicSource_samples(1)
  note s1 = cyclicSource_samples(2)
  have g: "generateUniqueRoomId cyclicSource [''100000'' \<mapsto> ()] = Some ''100001''"
    unfolding generateUniqueRoomId_def
    by (subst generateUniqueRoomId_loop.simps, simp add: s0 Let_def,
        subst generateUniqueRoomId_loop.simps, simp add: s1 Let_def)
  note t = generateUniqueRoomId_fresh [OF cyclicSource_unit, of "[''100000'' \<mapsto> ()]"]
  from t g have "length ''100001'' = 6 \<and> 100000 \<le> numberOf ''100001''
      \<and> numberOf ''100001'' \<le> 999999 \<and> [''100000'' \<mapsto> ()] ''100001'' = None"
    by blast
  moreover from t a cyclicSource_every
  have "\<exists>roomId. generateUniqueRoomId cyclicSource [''100000'' \<mapsto> ()] = Some roomId"
    by blast
  ultimately show ?thesis
    using a g cyclicSource_unit cyclicSource_every by blast
qed

section \<open>Answer submission\<close>

lemma submitAnswer_found:
  assumes "rooms r = Some room"
    and "map_of (players room) socketId = Some player"
    and "roundQuestions (currentProgress room) = FormattedQuestions questions"
    and "questions (currentQuestion (currentProgress room)) = Some q"
    and "player' =
      (if answerAt (allAnswers q) (answer - 1) = Some (correct_answer q)
       then player\<lparr>currentRoundAnswers :=
               (currentRoundAnswers player)(currentQuestion (currentProgress room) \<mapsto> True),
              currentRoundScore := currentRoundScore player + 1,
              totalScore := totalScore player + 1\<rparr>
       else player\<lparr>currentRoundAnswers :=
               (currentRoundAnswers player)(currentQuestion (currentProgress room) \<mapsto> False)\<rparr>)"
    and "room' = room\<lparr>players := AList.update socketId player' (players room)\<rparr>"
  shows "submitAnswer socketId rooms r answer =
           (Inr (MessageReply ''Answer submitted successfully.''), rooms(r \<mapsto> room'))
         \<and> map_of (players room') socketId = Some player'"
  using assms by (simp add: submitAnswer_def Let_def update_conv')

text \<open>
  C1. In a room where the connection has a player and the current question exists, an
  answer choice in \<open>1..length allAnswers\<close> is accepted; if it selects the correct answer,
  the player's \<open>currentRoundScore\<close> and \<open>totalScore\<close> each grow by exactly 1 and \<open>True\<close>
  is recorded at the current question index; if it selects another answer, \<open>False\<close> is
  recorded and neither score changes.
\<close>

theorem submitAnswer_scores:
  assumes "rooms r = Some room"
    and "map_of (players room) socketId = Some player"
    and "roundQuestions (currentProgress room) = FormattedQuestions questions"
    and "questions (currentQuestion (currentProgress room)) = Some q"
    and "1 \<le> answer" and "answer \<le> int (length (allAnswers q))"
  shows "\<exists>room' player'.
      submitAnswer socketId rooms r answer =
        (Inr (MessageReply ''Answer submitted successfully.''), rooms(r \<mapsto> room'))
      \<and> map_of (players room') socketId = Some player'
      \<and> (if allAnswers q ! nat (answer - 1) = correct_answer q
         then currentRoundScore player' = currentRoundScore player + 1
            \<and> totalScore player' = totalScore player + 1
            \<and> currentRoundAnswers player' (currentQuestion (currentProgress room)) = Some True
         else currentRoundScore player' = currentRoundScore player
            \<and> totalScore player' = totalScore player
            \<and> currentRoundAnswers player' (currentQuestion (currentProgress room)) = Some False)"
proof -
  from assms(5,6) have sel: "answerAt (allAnswers q) (answer - 1) = Some (allAnswers q ! nat (answer - 1))"
    by (simp add: answerAt_def)
  define player' where "player' =
      (if answerAt (allAnswers q) (answer - 1) = Some (correct_answer q)
       then player\<lparr>currentRoundAnswers :=
               (currentRoundAnswers player)(currentQuestion (currentProgress room) \<mapsto> True),
              currentRoundScore := currentRoundScore player + 1,
              totalScore := totalScore player + 1\<rparr>
       else player\<lparr>currentRoundAnswers :=
               (currentRoundAnswers player)(currentQuestion (currentProgress room) \<mapsto> False)\<rparr>)"
  define room' where "room' = room\<lparr>players := AList.update socketId player' (players room)\<rparr>"
  note found = submitAnswer_found [where rooms = rooms and questions = questions,
      OF assms(1-4) player'_def room'_def]
  have "if allAnswers q ! nat (answer - 1) = correct_answer q
         then currentRoundScore player' = currentRoundScore player + 1
            \<and> totalScore player' = totalScore player + 1
            \<and> currentRoundAnswers player' (currentQuestion (currentProgress room)) = Some True
         else currentRoundScore player' = currentRoundScore player
            \<and> totalScore player' = totalScore player
            \<and> currentRoundAnswers player' (currentQuestion (currentProgress room)) = Some False"
    by (simp add: player'_def sel)
  with found show ?thesis by blast
qed

theorem submitAnswer_scores_witness:
  "demoRooms ''100000'' = Some demoRoom
   \<and> map_of (players demoRoom) ''s1'' = Some (initializePlayer ''Ann'')
   \<and> roundQuestions (currentProgress demoRoom) = FormattedQuestions [1 \<mapsto> demoQuestion]
   \<and> [1 \<mapsto> demoQuestion] (currentQuestion (currentProgress demoRoom)) = Some demoQuestion
   \<and> (1::int) \<le> 2 \<and> (2::int) \<le> int (length (allAnswers demoQuestion))
   \<and> allAnswers demoQuestion ! nat (2 - 1) = correct_answer demoQuestion
   \<and> (\<exists>room' player'.
        submitAnswer ''s1'' demoRooms ''100000'' 2 =
          (Inr (MessageReply ''Answer submitted successfully.''), demoRooms(''100000'' \<mapsto> room'))
        \<and> map_of (players room') ''s1'' = Some player'
        \<and> currentRoundScore player' = 1 \<and> totalScore player' = 1
        \<and> currentRoundAnswers player' 1 = Some True)"
proof -
  have h: "demoRooms ''100000'' = Some demoRoom"
    "map_of (players demoRoom) ''s1'' = Some (initializePlayer ''Ann'')"
    "roundQuestions (currentProgress demoRoom) = FormattedQuestions [1 \<mapsto> demoQuestion]"
    "[1 \<mapsto> demoQuestion] (currentQuestion (currentProgress demoRoom)) = Some demoQuestion"
    "(1::int) \<le> 2" "(2::int) \<le> int (length (allAnswers demoQuestion))"
    by (simp_all add: demoRooms_def demoRoom_def demoQuestion_def)
  have c: "allAnswers demoQuestion ! nat (2 - 1) = correct_answer demoQuestion"
    by (simp add: demoQuestion_def)
  have i: "currentRoundScore (initializePlayer ''Ann'') = 0" "totalScore (initializePlayer ''Ann'') = 0"
    "currentQuestion (currentProgress demoRoom) = 1"
    by (simp_all add: initializePlayer_def demoRoom_def)
  show ?thesis
    using submitAnswer_scores [where rooms = demoRooms and r = "''100000''" and room = demoRoom
        and socketId = "''s1''" and player = "initializePlayer ''Ann''"
        and questions = "[1 \<mapsto> demoQuestion]" and q = demoQuestion and answer = 2] h c i
    by simp
qed

text \<open>
  C10. In the same situation, an answer choice outside \<open>1..length allAnswers\<close> is no
  error: the submission succeeds, \<open>False\<close> is recorded at the current question index,
  and neither score changes.
\<close>

theorem submitAnswer_out_of_range:
  assumes "rooms r = Some room"
    and "map_of (players room) socketId = Some player"
    and "roundQuestions (currentProgress room) = FormattedQuestions questions"
    and "questions (currentQuestion (currentProgress room)) = Some q"
    and "answer < 1 \<or> int (length (allAnswers q)) < answer"
  shows "\<exists>room' player'.
      submitAnswer socketId rooms r answer =
        (Inr (MessageReply ''Answer submitted successfully.''), rooms(r \<mapsto> room'))
      \<and> map_of (players room') socketId = Some player'
      \<and> currentRoundAnswers player' (currentQuestion (currentProgress room)) = Some False
      \<and> currentRoundScore player' = currentRoundScore player
      \<and> totalScore player' = totalScore player"
proof -
  from assms(5) have sel: "answerAt (allAnswers q) (answer - 1) = None"
    by (auto simp: answerAt_def)
  define player' where "player' =
      (if answerAt (allAnswers q) (answer - 1) = Some (correct_answer q)
       then player\<lparr>currentRoundAnswers :=
               (currentRoundAnswers player)(currentQuestion (currentProgress room) \<mapsto> True),
              currentRoundScore := currentRoundScore player + 1,
              totalScore := totalScore player + 1\<rparr>
       else player\<lparr>currentRoundAnswers :=
               (currentRoundAnswers player)(currentQuestion (currentProgress room) \<mapsto> False)\<rparr>)"
  define room' where "room' = room\<lparr>players := AList.update socketId player' (players room)\<rparr>"
  note found = submitAnswer_found [where rooms = rooms and questions = questions,
      OF assms(1-4) player'_def room'_def]
  have "currentRoundAnswers player' (currentQuestion (currentProgress room)) = Some False
      \<and> currentRoundScore player' = currentRoundScore player
      \<and> totalScore player' = totalScore player"
    by (simp add: player'_def sel)
  with found show ?thesis by blast
qed

theorem submitAnswer_out_of_range_witness:
  "demoRooms ''100000'' = Some demoRoom
   \<and> map_of (players demoRoom) ''s1'' = Some (initializePlayer ''Ann'')
   \<and> roundQuestions (currentProgress demoRoom) = FormattedQuestions [1 \<mapsto> demoQuestion]
   \<and> [1 \<mapsto> demoQuestion] (currentQuestion (currentProgress demoRoom)) = Some demoQuestion
   \<and> int (length (allAnswers demoQuestion)) < 5
   \<and> (\<exists>room' player'.
        submitAnswer ''s1'' demoRooms ''100000'' 5 =
          (Inr (MessageReply ''Answer submitted successfully.''), demoRooms(''100000'' \<mapsto> room'))
        \<and> map_of (players room') ''s1'' = Some player'
        \<and> currentRoundAnswers player' 1 = Some False
        \<and> currentRoundScore player' = 0 \<and> totalScore player' = 0)"
proof -
  have h: "demoRooms ''100000'' = Some demoRoom"
    "map_of (players demoRoom) ''s1'' = Some (initializePlayer ''Ann'')"
    "roundQuestions (currentProgress demoRoom) = FormattedQuestions [1 \<mapsto> demoQuestion]"
    "[1 \<mapsto> demoQuestion] (currentQuestion (currentProgress demoRoom)) = Some demoQuestion"
    by (simp_all add: demoRooms_def demoRoom_def demoQuestion_def)
  have c: "int (length (allAnswers demoQuestion)) < 5"
    by (simp add: demoQuestion_def)
  then have c': "5 < (1::int) \<or> int (length (allAnswers demoQuestion)) < 5" by simp
  have i: "currentRoundScore (initializePlayer ''Ann'') = 0" "totalScore (initializePlayer ''Ann'') = 0"
    "currentQuestion (currentProgress demoRoom) = 1"
    by (simp_all add: initializePlayer_def demoRoom_def)
  show ?thesis
    using submitAnswer_out_of_range [where rooms = demoRooms and r = "''100000''" and room = demoRoom
        and socketId = "''s1''" and player = "initializePlayer ''Ann''"
        and questions = "[1 \<mapsto> demoQuestion]" and q = demoQuestion and answer = 5] h c i
    by simp
qed

section \<open>Joining and starting\<close>

text \<open>
  C5. In a room whose quiz has started, a join is rejected with the error "Quiz has already
  started" and the registry is unchanged (no player is added). For a connection that
  already has a player in the room, a join leaves the registry unchanged (no duplicate,
  the player's record as it was) and, in the lobby, returns the room with that record; so a
  second join after a first one in the lobby returns what the first returned.
\<close>

theorem playerJoin_started_or_present:
  assumes "rooms r = Some room"
  shows "(quizStarted room \<longrightarrow> playerJoin socketId rooms r n = (Inl QuizAlreadyStarted, rooms))
    \<and> (map_of (players room) socketId = Some p \<longrightarrow>
         snd (playerJoin socketId rooms r n) = rooms
         \<and> (\<not> quizStarted room \<longrightarrow> playerJoin socketId rooms r n = (Inr (RoomReply room), rooms)))
    \<and> (\<not> quizStarted room \<longrightarrow>
         playerJoin socketId (snd (playerJoin socketId rooms r n)) r n' =
           playerJoin socketId rooms r n)"
proof (intro conjI impI)
  assume "quizStarted room"
  with assms show "playerJoin socketId rooms r n = (Inl QuizAlreadyStarted, rooms)"
    by (simp add: playerJoin_def)
next
  assume "map_of (players room) socketId = Some p"
  with assms show "snd (playerJoin socketId rooms r n) = rooms"
    by (simp add: playerJoin_def)
next
  assume "map_of (players room) socketId = Some p" "\<not> quizStarted room"
  with assms show "playerJoin socketId rooms r n = (Inr (RoomReply room), rooms)"
    by (simp add: playerJoin_def)
next
  assume lobby: "\<not> quizStarted room"
  show "playerJoin socketId (snd (playerJoin socketId rooms r n)) r n' =
          playerJoin socketId rooms r n"
  proof (cases "map_of (players room) socketId")
    case None
    with assms lobby show ?thesis
      by (simp add: playerJoin_def Let_def update_conv')
  next
    case (Some a)
    with assms lobby show ?thesis
      by (simp add: playerJoin_def)
  qed
qed

theorem playerJoin_started_or_present_witness:
  "demoRooms ''100000'' = Some demoRoom \<and> quizStarted demoRoom
   \<and> playerJoin ''s2'' demoRooms ''100000'' ''Bob'' = (Inl QuizAlreadyStarted, demoRooms)
   \<and> [''100000'' \<mapsto> lobbyRoom] ''100000'' = Some lobbyRoom \<and> \<not> quizStarted lobbyRoom
   \<and> map_of (players lobbyRoom) ''s1'' = Some (initializePlayer ''Ann'')
   \<and> playerJoin ''s1'' [''100000'' \<mapsto> lobbyRoom] ''100000'' ''Bob'' =
       (Inr (RoomReply lobbyRoom), [''100000'' \<mapsto> lobbyRoom])
   \<and> playerJoin ''s2'' (snd (playerJoin ''s2'' [''100000'' \<mapsto> lobbyRoom] ''100000'' ''Bob''))
         ''100000'' ''Bob'' =
       playerJoin ''s2'' [''100000'' \<mapsto> lobbyRoom] ''100000'' ''Bob''"
proof -
  have a: "demoRooms ''100000'' = Some demoRoom" "quizStarted demoRoom"
    by (simp_all add: demoRooms_def demoRoom_def)
  have b: "[''100000'' \<mapsto> lobbyRoom] ''100000'' = Some lobbyRoom" "\<not> quizStarted lobbyRoom"
    "map_of (players lobbyRoom) ''s1'' = Some (initializePlayer ''Ann'')"
    by (simp_all add: lobbyRoom_def demoRoom_def)
  show ?thesis
    using a b
      playerJoin_started_or_present [where rooms = demoRooms and r = "''100000''"
        and room = demoRoom and socketId = "''s2''" and n = "''Bob''"]
      playerJoin_started_or_present [where rooms = "[''100000'' \<mapsto> lobbyRoom]"
        and r = "''100000''" and room = lobbyRoom and socketId = "''s1''" and n = "''Bob''"
        and p = "initializePlayer ''Ann''"]
      playerJoin_started_or_present [where rooms = "[''100000'' \<mapsto> lobbyRoom]"
        and r = "''100000''" and room = lobbyRoom and socketId = "''s2''" and n = "''Bob''"
        and n' = "''Bob''"]
    by simp
qed

text \<open>
  C7, as the code has it. \<^verbatim>\<open>startQuiz\<close> does not look at \<^verbatim>\<open>quizStarted\<close>: in a room without
  players it is rejected with the error "No players in the room" and the registry is
  unchanged; in a room with a player it succeeds and sets \<^verbatim>\<open>quizStarted\<close>, in the lobby and
  in a quiz in progress alike.
\<close>

theorem startQuiz_needs_players:
  assumes "rooms r = Some room"
  shows "(players room = [] \<longrightarrow> startQuiz rooms r = (Inl NoPlayersInRoom, rooms))
    \<and> (players room \<noteq> [] \<longrightarrow>
         startQuiz rooms r =
           (Inr (MessageReply ''Quiz started successfully''),
            rooms(r \<mapsto> room\<lparr>quizStarted := True\<rparr>)))"
  using assms by (simp add: startQuiz_def)

theorem startQuiz_needs_players_witness:
  "[''100000'' \<mapsto> lobbyRoom] ''100000'' = Some lobbyRoom \<and> players lobbyRoom \<noteq> []
   \<and> startQuiz [''100000'' \<mapsto> lobbyRoom] ''100000'' =
       (Inr (MessageReply ''Quiz started successfully''),
        [''100000'' \<mapsto> lobbyRoom\<lparr>quizStarted := True\<rparr>])
   \<and> [''100000'' \<mapsto> lobbyRoom\<lparr>players := []\<rparr>] ''100000'' = Some (lobbyRoom\<lparr>players := []\<rparr>)
   \<and> players (lobbyRoom\<lparr>players := []\<rparr>) = []
   \<and> startQuiz [''100000'' \<mapsto> lobbyRoom\<lparr>players := []\<rparr>] ''100000'' =
       (Inl NoPlayersInRoom, [''100000'' \<mapsto> lobbyRoom\<lparr>players := []\<rparr>])"
proof -
  have a: "[''100000'' \<mapsto> lobbyRoom] ''100000'' = Some lobbyRoom" "players lobbyRoom \<noteq> []"
    by (simp_all add: lobbyRoom_def demoRoom_def)
  have b: "[''100000'' \<mapsto> lobbyRoom\<lparr>players := []\<rparr>] ''100000'' = Some (lobbyRoom\<lparr>players := []\<rparr>)"
    "players (lobbyRoom\<lparr>players := []\<rparr>) = []"
    by simp_all
  show ?thesis
    using a b
      startQuiz_needs_players [where rooms = "[''100000'' \<mapsto> lobbyRoom]" and r = "''100000''"
        and room = lobbyRoom]
      startQuiz_needs_players [where rooms = "[''100000'' \<mapsto> lobbyRoom\<lparr>players := []\<rparr>]"
        and r = "''100000''" and room = "lobbyRoom\<lparr>players := []\<rparr>"]
    by simp
qed

text \<open>
  C7 as stated fails: in a room whose quiz has already started (not the lobby), with a
  player, \<^verbatim>\<open>startQuiz\<close> is not rejected.
\<close>

theorem startQuiz_accepted_in_progress:
  "demoRooms ''100000'' = Some demoRoom \<and> quizStarted demoRoom
   \<and> startQuiz demoRooms ''100000'' =
       (Inr (MessageReply ''Quiz started successfully''),
        demoRooms(''100000'' \<mapsto> demoRoom\<lparr>quizStarted := True\<rparr>))"
  by (simp add: startQuiz_def demoRooms_def demoRoom_def)

section \<open>The next category\<close>

lemma indexOf_first:
  assumes "i < length plan" and "plan ! i = c" and "\<forall>j<i. plan ! j \<noteq> c"
  shows "indexOf plan (CategoryId c) = int i"
  using assms
proof (induction plan arbitrary: i)
  case Nil
  then show ?case by simp
next
  case (Cons x xs)
  show ?case
  proof (cases i)
    case 0
    with Cons.prems show ?thesis by simp
  next
    case (Suc k)
    with Cons.prems have x: "x \<noteq> c" by auto
    from Suc Cons.prems have "k < length xs" "xs ! k = c" "\<forall>j<k. xs ! j \<noteq> c" by auto
    then have "indexOf xs (CategoryId c) = int k" by (rule Cons.IH)
    with x Suc show ?thesis by (simp add: Let_def)
  qed
qed

lemma nextCategoryId_first_match:
  assumes "i < length plan" and "plan ! i = c" and "\<forall>j<i. plan ! j \<noteq> c"
  shows "i + 1 < length plan \<Longrightarrow>
           nextCategoryId (CategoryId c) plan = Some (CategoryId (plan ! (i + 1)))"
    and "i + 1 = length plan \<Longrightarrow> nextCategoryId (CategoryId c) plan = None"
proof -
  from assms have idx: "indexOf plan (CategoryId c) = int i" by (rule indexOf_first)
  show "nextCategoryId (CategoryId c) plan = Some (CategoryId (plan ! (i + 1)))"
    if "i + 1 < length plan"
    using that by (simp add: nextCategoryId_def idx arrayGet_def nat_add_distrib)
  show "nextCategoryId (CategoryId c) plan = None" if "i + 1 = length plan"
  proof -
    from that have "int (length plan) = int i + 1" by simp
    then show ?thesis by (simp add: nextCategoryId_def idx)
  qed
qed

text \<open>
  C3. \<^verbatim>\<open>generateRound\<close> asks the provider for the category it chooses, and on an answer
  returns the formatted questions and records that category as the room's
  \<^verbatim>\<open>currentRound\<close>. With no current category (\<^verbatim>\<open>null\<close>) the category is \<^verbatim>\<open>rounds[0]\<close>.
  Otherwise, with \<open>i\<close> the first index of the plan holding the current category: if \<open>i\<close> is
  not the last index the category is \<^verbatim>\<open>rounds[i + 1]\<close>; if \<open>i\<close> is the last index no request
  is made and the result is the string \<^verbatim>\<open>"end of round"\<close>, which is neither a thrown error
  nor a question set, the room left as it was.
\<close>

theorem generateRound_next_category:
  "generateRound api random Null plan m n room =
     (case api n (arrayGet plan 0) (case difficultyMap m of Some d \<Rightarrow> d | None \<Rightarrow> easy) of
        None \<Rightarrow> Inl FailedToGenerateRoundQuestions
      | Some results \<Rightarrow>
          Inr (FormattedQuestions (formatQuestions random results),
               room\<lparr>currentProgress := (currentProgress room)\<lparr>currentRound := arrayGet plan 0\<rparr>\<rparr>))
   \<and> (\<forall>c i. i < length plan \<and> plan ! i = c \<and> (\<forall>j<i. plan ! j \<noteq> c) \<longrightarrow>
        (i + 1 < length plan \<longrightarrow>
           generateRound api random (CategoryId c) plan m n room =
             (case api n (CategoryId (plan ! (i + 1)))
                     (case difficultyMap m of Some d \<Rightarrow> d | None \<Rightarrow> easy) of
                None \<Rightarrow> Inl FailedToGenerateRoundQuestions
              | Some results \<Rightarrow>
                  Inr (FormattedQuestions (formatQuestions random results),
                       room\<lparr>currentProgress :=
                              (currentProgress room)\<lparr>currentRound := CategoryId (plan ! (i + 1))\<rparr>\<rparr>)))
        \<and> (i + 1 = length plan \<longrightarrow>
             generateRound api random (CategoryId c) plan m n room = Inr (EndOfRoundString, room)))"
proof (intro conjI allI impI)
  show "generateRound api random Null plan m n room =
     (case api n (arrayGet plan 0) (case difficultyMap m of Some d \<Rightarrow> d | None \<Rightarrow> easy) of
        None \<Rightarrow> Inl FailedToGenerateRoundQuestions
      | Some results \<Rightarrow>
          Inr (FormattedQuestions (formatQuestions random results),
               room\<lparr>currentProgress := (currentProgress room)\<lparr>currentRound := arrayGet plan 0\<rparr>\<rparr>))"
    by (simp add: generateRound_def nextCategoryId_def)
next
  fix c i
  assume a: "i < length plan \<and> plan ! i = c \<and> (\<forall>j<i. plan ! j \<noteq> c)"
  then have f: "i < length plan" "plan ! i = c" "\<forall>j<i. plan ! j \<noteq> c" by simp_all
  {
    assume "i + 1 < length plan"
    from nextCategoryId_first_match(1) [OF f this]
    show "generateRound api random (CategoryId c) plan m n room =
             (case api n (CategoryId (plan ! (i + 1)))
                     (case difficultyMap m of Some d \<Rightarrow> d | None \<Rightarrow> easy) of
                None \<Rightarrow> Inl FailedToGenerateRoundQuestions
              | Some results \<Rightarrow>
                  Inr (FormattedQuestions (formatQuestions random results),
                       room\<lparr>currentProgress :=
                              (currentProgress room)\<lparr>currentRound := CategoryId (plan ! (i + 1))\<rparr>\<rparr>))"
      by (simp add: generateRound_def cong: option.case_cong)
  }
  {
    assume "i + 1 = length plan"
    from nextCategoryId_first_match(2) [OF f this]
    show "generateRound api random (CategoryId c) plan m n room = Inr (EndOfRoundString, room)"
      by (simp add: generateRound_def)
  }
qed

theorem generateRound_next_category_witness:
  "generateRound demoApi zeroSource Null [10, 9] 1 5 blankRoom =
     Inr (FormattedQuestions (formatQuestions zeroSource [QuestionData ''Q'' ''B'' [''A'', ''C'', ''D'']]),
          blankRoom\<lparr>currentProgress := (currentProgress blankRoom)\<lparr>currentRound := CategoryId 10\<rparr>\<rparr>)
   \<and> generateRound demoApi zeroSource Null [9, 10] 1 5 blankRoom = Inl FailedToGenerateRoundQuestions
   \<and> generateRound demoApi zeroSource (CategoryId 9) [9, 10, 12] 1 5 blankRoom =
     Inr (FormattedQuestions (formatQuestions zeroSource [QuestionData ''Q'' ''B'' [''A'', ''C'', ''D'']]),
          blankRoom\<lparr>currentProgress := (currentProgress blankRoom)\<lparr>currentRound := CategoryId 10\<rparr>\<rparr>)
   \<and> generateRound demoApi zeroSource (CategoryId 10) [9, 10, 12] 1 5 blankRoom =
     Inl FailedToGenerateRoundQuestions
   \<and> generateRound demoApi zeroSource (CategoryId 10) [10, 10, 12] 1 5 blankRoom =
     Inr (FormattedQuestions (formatQuestions zeroSource [QuestionData ''Q'' ''B'' [''A'', ''C'', ''D'']]),
          blankRoom\<lparr>currentProgress := (currentProgress blankRoom)\<lparr>currentRound := CategoryId 10\<rparr>\<rparr>)
   \<and> generateRound demoApi zeroSource (CategoryId 12) [9, 10, 12] 1 5 blankRoom =
     Inr (EndOfRoundString, blankRoom)"
proof -
  note t1 = generateRound_next_category [where plan = "[10, 9]" and api = demoApi
      and random = zeroSource and m = 1 and n = 5 and room = blankRoom, THEN conjunct1]
  note t2 = generateRound_next_category [where plan = "[9, 10]" and api = demoApi
      and random = zeroSource and m = 1 and n = 5 and room = blankRoom, THEN conjunct1]
  note t3 = generateRound_next_category [where plan = "[9, 10, 12]" and api = demoApi
      and random = zeroSource and m = 1 and n = 5 and room = blankRoom, THEN conjunct2,
      rule_format]
  note t4 = generateRound_next_category [where plan = "[10, 10, 12]" and api = demoApi
      and random = zeroSource and m = 1 and n = 5 and room = blankRoom, THEN conjunct2,
      rule_format]
  have d: "(case difficultyMap 1 of Some d \<Rightarrow> d | None \<Rightarrow> easy) = easy"
    by (simp add: difficultyMap_def)
  have a: "generateRound demoApi zeroSource Null [10, 9] 1 5 blankRoom =
     Inr (FormattedQuestions (formatQuestions zeroSource [QuestionData ''Q'' ''B'' [''A'', ''C'', ''D'']]),
          blankRoom\<lparr>currentProgress := (currentProgress blankRoom)\<lparr>currentRound := CategoryId 10\<rparr>\<rparr>)"
    using t1 by (simp add: d arrayGet_def demoApi_def)
  have b: "generateRound demoApi zeroSource Null [9, 10] 1 5 blankRoom =
      Inl FailedToGenerateRoundQuestions"
    using t2 by (simp add: d arrayGet_def demoApi_def)
  have c: "generateRound demoApi zeroSource (CategoryId 9) [9, 10, 12] 1 5 blankRoom =
     Inr (FormattedQuestions (formatQuestions zeroSource [QuestionData ''Q'' ''B'' [''A'', ''C'', ''D'']]),
          blankRoom\<lparr>currentProgress := (currentProgress blankRoom)\<lparr>currentRound := CategoryId 10\<rparr>\<rparr>)"
    using t3 [of 0 9, THEN conjunct1] by (simp add: d demoApi_def)
  have less2: "\<forall>j<Suc 0. [9, 10, 12] ! j \<noteq> (10::int)" "\<forall>j<2. [9, 10, 12] ! j \<noteq> (12::int)"
    by (simp_all add: less_Suc_eq numeral_2_eq_2)
  have e: "generateRound demoApi zeroSource (CategoryId 10) [9, 10, 12] 1 5 blankRoom =
     Inl FailedToGenerateRoundQuestions"
    using t3 [of 1 10, THEN conjunct1] less2(1) by (simp add: d demoApi_def)
  have f: "generateRound demoApi zeroSource (CategoryId 10) [10, 10, 12] 1 5 blankRoom =
     Inr (FormattedQuestions (formatQuestions zeroSource [QuestionData ''Q'' ''B'' [''A'', ''C'', ''D'']]),
          blankRoom\<lparr>currentProgress := (currentProgress blankRoom)\<lparr>currentRound := CategoryId 10\<rparr>\<rparr>)"
    using t4 [of 0 10, THEN conjunct1] by (simp add: d demoApi_def)
  have g: "generateRound demoApi zeroSource (CategoryId 12) [9, 10, 12] 1 5 blankRoom =
     Inr (EndOfRoundString, blankRoom)"
    using t3 [of 2 12, THEN conjunct2] less2(2) by simp
  from a b c e f g show ?thesis by (intro conjI)
qed

section \<open>Creating a room\<close>

text \<open>
  C6. When the room code is generated and the provider fails on the request for the first
  round, \<^verbatim>\<open>create\<close> replies with the error "Failed to create room" and the registry is
  unchanged. When the provider answers, the reply is the new room, which holds the
  generated code and the formatted questions, and the registry is the old one with that
  room stored under its code, a key that was free.
\<close>

theorem create_atomic:
  assumes "generateUniqueRoomId idRandom rooms = Some newRoomId"
    and "questionsPerRound = (case questionPerRoundArg of Some n \<Rightarrow> n | None \<Rightarrow> 5)"
    and "difficulty = (case difficultyMap modeArg of Some d \<Rightarrow> d | None \<Rightarrow> easy)"
  shows "(api questionsPerRound (arrayGet roundsArg 0) difficulty = None \<longrightarrow>
           create idRandom api random socketId rooms questionTimeLimitArg questionPerRoundArg
             roundsArg modeArg = Some (Inl FailedToCreateRoom, rooms))
    \<and> (\<forall>results. api questionsPerRound (arrayGet roundsArg 0) difficulty = Some results \<longrightarrow>
          (\<exists>newRoom.
             create idRandom api random socketId rooms questionTimeLimitArg questionPerRoundArg
               roundsArg modeArg = Some (Inr (RoomReply newRoom), rooms(newRoomId \<mapsto> newRoom))
             \<and> roomId newRoom = newRoomId
             \<and> roundQuestions (currentProgress newRoom) =
                 FormattedQuestions (formatQuestions random results)
             \<and> rooms newRoomId = None))"
proof (intro conjI allI impI)
  assume "api questionsPerRound (arrayGet roundsArg 0) difficulty = None"
  with assms show "create idRandom api random socketId rooms questionTimeLimitArg
      questionPerRoundArg roundsArg modeArg = Some (Inl FailedToCreateRoom, rooms)"
    by (simp add: create_def createRoom_def generateRound_def nextCategoryId_def Let_def)
next
  fix results
  assume "api questionsPerRound (arrayGet roundsArg 0) difficulty = Some results"
  with assms generateUniqueRoomId_Some_fresh [OF assms(1)]
  show "\<exists>newRoom.
      create idRandom api random socketId rooms questionTimeLimitArg questionPerRoundArg
        roundsArg modeArg = Some (Inr (RoomReply newRoom), rooms(newRoomId \<mapsto> newRoom))
      \<and> roomId newRoom = newRoomId
      \<and> roundQuestions (currentProgress newRoom) =
          FormattedQuestions (formatQuestions random results)
      \<and> rooms newRoomId = None"
    by (simp add: create_def createRoom_def generateRound_def nextCategoryId_def Let_def)
qed

theorem create_atomic_witness:
  "generateUniqueRoomId cyclicSource (Map.empty :: registry) = Some ''100000''
   \<and> demoApi 5 (arrayGet [9] 0) easy = None
   \<and> create cyclicSource demoApi zeroSource ''gm'' Map.empty None None [9] 1 =
       Some (Inl FailedToCreateRoom, Map.empty)
   \<and> demoApi 5 (arrayGet [10, 10, 12] 0) easy = Some [QuestionData ''Q'' ''B'' [''A'', ''C'', ''D'']]
   \<and> (\<exists>newRoom.
        create cyclicSource demoApi zeroSource ''gm'' Map.empty None None [10, 10, 12] 1 =
          Some (Inr (RoomReply newRoom), [''100000'' \<mapsto> newRoom])
        \<and> roomId newRoom = ''100000''
        \<and> roundQuestions (currentProgress newRoom) =
            FormattedQuestions
              (formatQuestions zeroSource [QuestionData ''Q'' ''B'' [''A'', ''C'', ''D'']]))"
proof -
  have t0: "toString 100000 = ''100000''"
    by (simp add: toString_small toString_step digitChar_def)
  note s0 = cyclicSource_samples(1)
  have g: "generateUniqueRoomId cyclicSource (Map.empty :: registry) = Some ''100000''"
    unfolding generateUniqueRoomId_def
    by (subst generateUniqueRoomId_loop.simps) (simp add: s0 Let_def)
  have q: "(5::nat) = (case None of Some n \<Rightarrow> n | None \<Rightarrow> 5)" by simp
  have d: "easy = (case difficultyMap 1 of Some d \<Rightarrow> d | None \<Rightarrow> easy)"
    by (simp add: difficultyMap_def)
  have f: "demoApi 5 (arrayGet [9] 0) easy = None"
    by (simp add: demoApi_def arrayGet_def)
  have k: "demoApi 5 (arrayGet [10, 10, 12] 0) easy =
      Some [QuestionData ''Q'' ''B'' [''A'', ''C'', ''D'']]"
    by (simp add: demoApi_def arrayGet_def)
  show ?thesis
    using g f k
      create_atomic [OF g q d, where api = demoApi and roundsArg = "[9]"
        and random = zeroSource and socketId = "''gm''" and questionTimeLimitArg = None]
      create_atomic [OF g q d, where api = demoApi and roundsArg = "[10, 10, 12]"
        and random = zeroSource and socketId = "''gm''" and questionTimeLimitArg = None]
    by simp
qed

section \<open>Starting the next round\<close>

lemma map_fst_map_entry: "map fst (AList.map_entry k f ps) = map fst ps"
  by (induction ps) auto

lemma map_fst_fold_map_entry:
  "map fst (fold (\<lambda>k ps. AList.map_entry k f ps) ks ps) = map fst ps"
  by (induction ks arbitrary: ps) (simp_all add: map_fst_map_entry)

lemma map_of_fold_map_entry:
  assumes idem: "\<And>x. f (f x) = f x"
  shows "map_of (fold (\<lambda>k ps. AList.map_entry k f ps) ks ps) k' =
           (if k' \<in> set ks then map_option f (map_of ps k') else map_of ps k')"
proof (induction ks arbitrary: ps)
  case Nil
  then show ?case by simp
next
  case (Cons k ks)
  show ?case
    by (cases "map_of ps k'") (auto simp: Cons.IH map_of_map_entry idem)
qed

lemma resetPlayer_idem: "resetPlayer (resetPlayer p) = resetPlayer p"
  by (simp add: resetPlayer_def)

lemma generateRound_keeps_players:
  "generateRound api random c plan m n room = Inr (newQuestions, room1) \<Longrightarrow>
     players room1 = players room"
  by (auto simp: generateRound_def Let_def split: option.splits)

lemma nextRound_success:
  assumes "rooms r = Some room"
    and "nextRound api random rooms r = (Inr reply, rooms')"
  shows "\<exists>newQuestions room1.
      generateRound api random (currentRound (currentProgress room)) (rounds room) (mode room)
        (questionPerRound room) room = Inr (newQuestions, room1)
      \<and> reply = RoomReply
          (room1\<lparr>currentProgress :=
                   (currentProgress room1)\<lparr>roundQuestions := newQuestions, currentQuestion := 1\<rparr>,
                 players := fold (\<lambda>playerId ps. AList.map_entry playerId resetPlayer ps)
                    (map fst (players room)) (players room)\<rparr>)
      \<and> rooms' = rooms(r \<mapsto>
          room1\<lparr>currentProgress :=
                   (currentProgress room1)\<lparr>roundQuestions := newQuestions, currentQuestion := 1\<rparr>,
                 players := fold (\<lambda>playerId ps. AList.map_entry playerId resetPlayer ps)
                    (map fst (players room)) (players room)\<rparr>)"
proof (cases "generateRound api random (currentRound (currentProgress room)) (rounds room)
    (mode room) (questionPerRound room) room")
  case (Inl e)
  with assms show ?thesis by (simp add: nextRound_def)
next
  case (Inr res)
  obtain newQuestions room1 where res: "res = (newQuestions, room1)" by (cases res)
  from Inr res have "players room1 = players room"
    by (simp add: generateRound_keeps_players)
  with assms Inr res show ?thesis
    by (auto simp: nextRound_def Let_def)
qed

text \<open>
  C4. When \<^verbatim>\<open>nextRound\<close> replies with a result, the room it replies with and stores holds
  what \<^verbatim>\<open>generateRound\<close> returned as \<^verbatim>\<open>roundQuestions\<close>, has \<^verbatim>\<open>currentQuestion\<close> 1 and the
  same players; every player has \<^verbatim>\<open>currentRoundScore\<close> 0, no \<^verbatim>\<open>currentRoundAnswers\<close> and no
  \<^verbatim>\<open>endOfRoundRank\<close>, and the \<^verbatim>\<open>totalScore\<close>, \<^verbatim>\<open>overallRank\<close> and \<^verbatim>\<open>name\<close> it had.
\<close>

theorem nextRound_resets_round:
  assumes "rooms r = Some room"
    and "nextRound api random rooms r = (Inr reply, rooms')"
  shows "\<exists>room' newQuestions room1.
      reply = RoomReply room' \<and> rooms' = rooms(r \<mapsto> room')
      \<and> generateRound api random (currentRound (currentProgress room)) (rounds room) (mode room)
          (questionPerRound room) room = Inr (newQuestions, room1)
      \<and> roundQuestions (currentProgress room') = newQuestions
      \<and> currentQuestion (currentProgress room') = 1
      \<and> map fst (players room') = map fst (players room)
      \<and> (\<forall>socketId p. map_of (players room) socketId = Some p \<longrightarrow>
            (\<exists>p'. map_of (players room') socketId = Some p'
               \<and> currentRoundScore p' = 0 \<and> currentRoundAnswers p' = Map.empty
               \<and> endOfRoundRank p' = None
               \<and> totalScore p' = totalScore p \<and> overallRank p' = overallRank p
               \<and> name p' = name p))"
proof -
  from nextRound_success [OF assms] obtain newQuestions room1 where
    gen: "generateRound api random (currentRound (currentProgress room)) (rounds room)
        (mode room) (questionPerRound room) room = Inr (newQuestions, room1)"
    and reply: "reply = RoomReply
          (room1\<lparr>currentProgress :=
                   (currentProgress room1)\<lparr>roundQuestions := newQuestions, currentQuestion := 1\<rparr>,
                 players := fold (\<lambda>playerId ps. AList.map_entry playerId resetPlayer ps)
                    (map fst (players room)) (players room)\<rparr>)"
    and rooms': "rooms' = rooms(r \<mapsto>
          room1\<lparr>currentProgress :=
                   (currentProgress room1)\<lparr>roundQuestions := newQuestions, currentQuestion := 1\<rparr>,
                 players := fold (\<lambda>playerId ps. AList.map_entry playerId resetPlayer ps)
                    (map fst (players room)) (players room)\<rparr>)"
    by blast
  define room' where "room' =
     room1\<lparr>currentProgress :=
              (currentProgress room1)\<lparr>roundQuestions := newQuestions, currentQuestion := 1\<rparr>,
            players := fold (\<lambda>playerId ps. AList.map_entry playerId resetPlayer ps)
               (map fst (players room)) (players room)\<rparr>"
  have keys: "map fst (players room') = map fst (players room)"
    by (simp add: room'_def map_fst_fold_map_entry)
  have each: "\<exists>p'. map_of (players room') socketId = Some p'
               \<and> currentRoundScore p' = 0 \<and> currentRoundAnswers p' = Map.empty
               \<and> endOfRoundRank p' = None
               \<and> totalScore p' = totalScore p \<and> overallRank p' = overallRank p
               \<and> name p' = name p"
    if p: "map_of (players room) socketId = Some p" for socketId p
  proof -
    from p have "socketId \<in> set (map fst (players room))"
      by (metis map_of_eq_None_iff option.distinct(1) set_map)
    with p have "map_of (players room') socketId = Some (resetPlayer p)"
      by (simp add: room'_def map_of_fold_map_entry [of resetPlayer, OF resetPlayer_idem])
    then show ?thesis by (simp add: resetPlayer_def)
  qed
  have "reply = RoomReply room'" "rooms' = rooms(r \<mapsto> room')"
    "roundQuestions (currentProgress room') = newQuestions"
    "currentQuestion (currentProgress room') = 1"
    using reply rooms' by (simp_all add: room'_def)
  with gen keys each show ?thesis by blast
qed

theorem nextRound_resets_round_witness:
  "[''100000'' \<mapsto> playedRoom] ''100000'' = Some playedRoom
   \<and> currentQuestion (currentProgress playedRoom) = 3
   \<and> roundQuestions (currentProgress playedRoom) =
       FormattedQuestions [1 \<mapsto> demoQuestion, 2 \<mapsto> demoQuestion, 3 \<mapsto> demoQuestion]
   \<and> map_of (players playedRoom) ''s1'' =
       Some \<lparr>name = ''Ann'', currentRoundScore = 2, totalScore = 5,
             currentRoundAnswers = [1 \<mapsto> True, 2 \<mapsto> True],
             endOfRoundRank = Some 1, overallRank = Some 2\<rparr>
   \<and> map_of (players playedRoom) ''s2'' =
       Some \<lparr>name = ''Bob'', currentRoundScore = 1, totalScore = 7,
             currentRoundAnswers = [1 \<mapsto> False, 2 \<mapsto> True],
             endOfRoundRank = Some 2, overallRank = Some 1\<rparr>
   \<and> (\<exists>room'.
        nextRound demoApi zeroSource [''100000'' \<mapsto> playedRoom] ''100000'' =
          (Inr (RoomReply room'), [''100000'' \<mapsto> room'])
        \<and> roundQuestions (currentProgress room') =
            FormattedQuestions
              (formatQuestions zeroSource [QuestionData ''Q'' ''B'' [''A'', ''C'', ''D'']])
        \<and> currentQuestion (currentProgress room') = 1
        \<and> map fst (players room') = [''s1'', ''s2'']
        \<and> map_of (players room') ''s1'' =
            Some \<lparr>name = ''Ann'', currentRoundScore = 0, totalScore = 5,
                  currentRoundAnswers = Map.empty,
                  endOfRoundRank = None, overallRank = Some 2\<rparr>
        \<and> map_of (players room') ''s2'' =
            Some \<lparr>name = ''Bob'', currentRoundScore = 0, totalScore = 7,
                  currentRoundAnswers = Map.empty,
                  endOfRoundRank = None, overallRank = Some 1\<rparr>)"
proof -
  let ?rooms = "[''100000'' \<mapsto> playedRoom]"
  let ?ann = "\<lparr>name = ''Ann'', currentRoundScore = 2, totalScore = 5,
             currentRoundAnswers = [1 \<mapsto> True, 2 \<mapsto> True],
             endOfRoundRank = Some 1, overallRank = Some 2\<rparr>"
  let ?bob = "\<lparr>name = ''Bob'', currentRoundScore = 1, totalScore = 7,
             currentRoundAnswers = [1 \<mapsto> False, 2 \<mapsto> True],
             endOfRoundRank = Some 2, overallRank = Some 1\<rparr>"
  have a: "?rooms ''100000'' = Some playedRoom" by simp
  have before: "currentQuestion (currentProgress playedRoom) = 3"
    "roundQuestions (currentProgress playedRoom) =
       FormattedQuestions [1 \<mapsto> demoQuestion, 2 \<mapsto> demoQuestion, 3 \<mapsto> demoQuestion]"
    "map_of (players playedRoom) ''s1'' = Some ?ann"
    "map_of (players playedRoom) ''s2'' = Some ?bob"
    "map fst (players playedRoom) = [''s1'', ''s2'']"
    by (simp_all add: playedRoom_def)
  have n: "nextCategoryId (CategoryId 10) [10, 10, 12] = Some (CategoryId 10)"
    by (simp add: nextCategoryId_def arrayGet_def Let_def)
  have g: "generateRound demoApi zeroSource (currentRound (currentProgress playedRoom))
      (rounds playedRoom) (mode playedRoom) (questionPerRound playedRoom) playedRoom =
      Inr (FormattedQuestions (formatQuestions zeroSource [QuestionData ''Q'' ''B'' [''A'', ''C'', ''D'']]),
           playedRoom\<lparr>currentProgress := (currentProgress playedRoom)\<lparr>currentRound := CategoryId 10\<rparr>\<rparr>)"
    by (simp add: generateRound_def playedRoom_def demoRoom_def n demoApi_def difficultyMap_def)
  obtain reply rooms' where b: "nextRound demoApi zeroSource ?rooms ''100000'' = (Inr reply, rooms')"
    using a g by (simp add: nextRound_def Let_def)
  from nextRound_resets_round [OF a b] obtain room' newQuestions room1 where
    r: "reply = RoomReply room'" "rooms' = ?rooms(''100000'' \<mapsto> room')"
      "generateRound demoApi zeroSource (currentRound (currentProgress playedRoom))
          (rounds playedRoom) (mode playedRoom) (questionPerRound playedRoom) playedRoom =
          Inr (newQuestions, room1)"
      "roundQuestions (currentProgress room') = newQuestions"
      "currentQuestion (currentProgress room') = 1"
      "map fst (players room') = map fst (players playedRoom)"
      "\<forall>socketId p. map_of (players playedRoom) socketId = Some p \<longrightarrow>
            (\<exists>p'. map_of (players room') socketId = Some p'
               \<and> currentRoundScore p' = 0 \<and> currentRoundAnswers p' = Map.empty
               \<and> endOfRoundRank p' = None
               \<and> totalScore p' = totalScore p \<and> overallRank p' = overallRank p
               \<and> name p' = name p)"
    by blast
  from r(7) before(3) obtain p1 where p1: "map_of (players room') ''s1'' = Some p1"
      "currentRoundScore p1 = 0" "currentRoundAnswers p1 = Map.empty"
      "endOfRoundRank p1 = None" "totalScore p1 = totalScore ?ann"
      "overallRank p1 = overallRank ?ann" "name p1 = name ?ann"
    by blast
  from r(7) before(4) obtain p2 where p2: "map_of (players room') ''s2'' = Some p2"
      "currentRoundScore p2 = 0" "currentRoundAnswers p2 = Map.empty"
      "endOfRoundRank p2 = None" "totalScore p2 = totalScore ?bob"
      "overallRank p2 = overallRank ?bob" "name p2 = name ?bob"
    by blast
  have e1: "p1 = \<lparr>name = ''Ann'', currentRoundScore = 0, totalScore = 5,
                  currentRoundAnswers = Map.empty,
                  endOfRoundRank = None, overallRank = Some 2\<rparr>"
    using p1(2-7) by (intro player.equality) simp_all
  have e2: "p2 = \<lparr>name = ''Bob'', currentRoundScore = 0, totalScore = 7,
                  currentRoundAnswers = Map.empty,
                  endOfRoundRank = None, overallRank = Some 1\<rparr>"
    using p2(2-7) by (intro player.equality) simp_all
  have n': "nextRound demoApi zeroSource ?rooms ''100000'' =
          (Inr (RoomReply room'), [''100000'' \<mapsto> room'])"
    using b r(1,2) by simp
  have q': "roundQuestions (currentProgress room') =
      FormattedQuestions (formatQuestions zeroSource [QuestionData ''Q'' ''B'' [''A'', ''C'', ''D'']])"
    using r(3,4) g by simp
  have k': "map fst (players room') = [''s1'', ''s2'']"
    using r(6) before(5) by simp
  have m1: "map_of (players room') ''s1'' =
            Some \<lparr>name = ''Ann'', currentRoundScore = 0, totalScore = 5,
                  currentRoundAnswers = Map.empty,
                  endOfRoundRank = None, overallRank = Some 2\<rparr>"
    using p1(1) e1 by simp
  have m2: "map_of (players room') ''s2'' =
            Some \<lparr>name = ''Bob'', currentRoundScore = 0, totalScore = 7,
                  currentRoundAnswers = Map.empty,
                  endOfRoundRank = None, overallRank = Some 1\<rparr>"
    using p2(1) e2 by simp
  show ?thesis
    by (intro conjI exI [of _ room'])
      (rule a before(1) before(2) before(3) before(4) n' q' r(5) k' m1 m2)+
qed

section \<open>Rankings\<close>

lemma assignRanks_step:
  "i < length rankings \<Longrightarrow>
     assignRanks setRank rankings i currentRank ps =
       assignRanks setRank rankings (i + 1)
         (if i > 0 \<and> snd (rankings ! i) \<noteq> snd (rankings ! (i - 1)) then i + 1 else currentRank)
         (AList.map_entry (fst (rankings ! i))
            (setRank (if i > 0 \<and> snd (rankings ! i) \<noteq> snd (rankings ! (i - 1)) then i + 1
                      else currentRank)) ps)"
  by (subst assignRanks.simps) (simp add: Let_def)

lemma assignRanks_done:
  "\<not> i < length rankings \<Longrightarrow> assignRanks setRank rankings i currentRank ps = ps"
  by (subst assignRanks.simps) simp

lemma map_entry_projection:
  assumes "\<And>p. g (f p) = g p"
  shows "map (\<lambda>(k, p). (k, g p)) (AList.map_entry k' f ps) = map (\<lambda>(k, p). (k, g p)) ps"
  by (induction ps) (auto simp: assms)

lemma assignRanks_projection:
  assumes "\<And>r p. g (setRank r p) = g p"
  shows "map (\<lambda>(k, p). (k, g p)) (assignRanks setRank rankings i currentRank ps) =
           map (\<lambda>(k, p). (k, g p)) ps"
proof (induction "length rankings - i" arbitrary: i currentRank ps)
  case 0
  then show ?case by (simp add: assignRanks_done)
next
  case (Suc n)
  then have i: "i < length rankings" and n: "n = length rankings - (i + 1)" by simp_all
  show ?case
    by (simp only: assignRanks_step [OF i] Suc.hyps(1) [OF n] map_entry_projection [of g, OF assms])
qed

lemma assignRanks_keys:
  "map fst (assignRanks setRank rankings i currentRank ps) = map fst ps"
proof -
  have "map fst (map (\<lambda>(k, p). (k, ())) (assignRanks setRank rankings i currentRank ps)) =
      map fst (map (\<lambda>(k, p). (k, ())) ps)"
    by (simp only: assignRanks_projection [of "\<lambda>p. ()"])
  then show ?thesis by (simp add: case_prod_unfold comp_def)
qed

lemma assignRanks_other:
  assumes "\<forall>j. i \<le> j \<and> j < length rankings \<longrightarrow> fst (rankings ! j) \<noteq> k"
  shows "map_of (assignRanks setRank rankings i currentRank ps) k = map_of ps k"
  using assms
proof (induction "length rankings - i" arbitrary: i currentRank ps)
  case 0
  then show ?case by (simp add: assignRanks_done)
next
  case (Suc n)
  then have i: "i < length rankings" and n: "n = length rankings - (i + 1)" by simp_all
  from Suc.prems i have ne: "fst (rankings ! i) \<noteq> k" by simp
  from Suc.prems have rest: "\<forall>j. i + 1 \<le> j \<and> j < length rankings \<longrightarrow> fst (rankings ! j) \<noteq> k"
    by simp
  show ?case
    using ne by (simp only: assignRanks_step [OF i] Suc.hyps(1) [OF n rest] map_of_map_entry)
      simp
qed

lemma assignRanks_at:
  assumes "distinct (map fst rankings)"
    and "currentRank = (if i = 0 then 1 else rankAfter rankings (i - 1))"
    and "i \<le> j" and "j < length rankings"
  shows "map_of (assignRanks setRank rankings i currentRank ps) (fst (rankings ! j)) =
           map_option (setRank (rankAfter rankings j)) (map_of ps (fst (rankings ! j)))"
  using assms(2,3)
proof (induction "length rankings - i" arbitrary: i currentRank ps)
  case 0
  with assms(4) show ?case by simp
next
  case (Suc n)
  then have i: "i < length rankings" and n: "n = length rankings - (i + 1)" by simp_all
  define rk where
    "rk = (if i > 0 \<and> snd (rankings ! i) \<noteq> snd (rankings ! (i - 1)) then i + 1 else currentRank)"
  have step: "assignRanks setRank rankings i currentRank ps =
      assignRanks setRank rankings (i + 1) rk
        (AList.map_entry (fst (rankings ! i)) (setRank rk) ps)"
    unfolding rk_def by (rule assignRanks_step [OF i])
  have rank: "rk = rankAfter rankings i"
  proof (cases "i = 0")
    case True
    with Suc.prems show ?thesis by (simp add: rk_def)
  next
    case False
    then obtain k where k: "i = Suc k" by (cases i) auto
    with Suc.prems show ?thesis by (simp add: rk_def)
  qed
  have next_rank: "rk = (if i + 1 = 0 then 1 else rankAfter rankings (i + 1 - 1))"
    using rank by simp
  show ?case
  proof (cases "j = i")
    case True
    have "\<forall>j'. i + 1 \<le> j' \<and> j' < length rankings \<longrightarrow> fst (rankings ! j') \<noteq> fst (rankings ! i)"
      using assms(1) i by (auto simp: distinct_conv_nth)
    then have "map_of (assignRanks setRank rankings (i + 1) rk
        (AList.map_entry (fst (rankings ! i)) (setRank rk) ps)) (fst (rankings ! i)) =
        map_of (AList.map_entry (fst (rankings ! i)) (setRank rk) ps) (fst (rankings ! i))"
      by (rule assignRanks_other)
    then show ?thesis
      unfolding True step
      by (cases "map_of ps (fst (rankings ! i))") (simp_all add: map_of_map_entry rank)
  next
    case False
    with Suc.prems have j: "i + 1 \<le> j" by simp
    from False assms(1,4) i have ne: "fst (rankings ! i) \<noteq> fst (rankings ! j)"
      by (auto simp: distinct_conv_nth)
    show ?thesis
      unfolding step
      by (subst Suc.hyps(1) [OF n next_rank j]) (simp add: map_of_map_entry ne ne [symmetric])
  qed
qed

lemma sortDescending_entries:
  "mset (sortDescending entries) = mset entries"
  "sorted_wrt (\<lambda>a b. snd b \<le> snd a) (sortDescending entries)"
  "map fst (map (\<lambda>(k, p). (k, g p)) ps) = map fst ps"
proof -
  show "mset (sortDescending entries) = mset entries"
    by (simp add: sortDescending_def)
  have "sorted (map (\<lambda>e. - snd e) (sortDescending entries))"
    unfolding sortDescending_def by (rule sorted_sort_key)
  then show "sorted_wrt (\<lambda>a b. snd b \<le> snd a) (sortDescending entries)"
    by (simp add: sorted_map)
  show "map fst (map (\<lambda>(k, p). (k, g p)) ps) = map fst ps"
    by (simp add: case_prod_unfold comp_def)
qed

lemma sortDescending_keys:
  "mset (map fst (sortDescending (map (\<lambda>(k, p). (k, g p)) ps))) = mset (map fst ps)"
proof -
  have "mset (map fst (sortDescending es)) = mset (map fst es)" for es :: "(string \<times> int) list"
    by (simp add: sortDescending_def)
  then have "mset (map fst (sortDescending (map (\<lambda>(k, p). (k, g p)) ps))) =
      mset (map fst (map (\<lambda>(k, p). (k, g p)) ps))" .
  then show ?thesis by (simp only: sortDescending_entries(3))
qed

lemma ranking_pass:
  assumes dist: "distinct (map fst ps)"
    and get_set: "\<And>r p. getRank (setRank r p) = Some r"
    and i: "i < length (sortDescending (map (\<lambda>(k, p). (k, score p)) ps))"
  shows "(case map_of (assignRanks setRank (sortDescending (map (\<lambda>(k, p). (k, score p)) ps)) 0 1 ps)
              (fst (sortDescending (map (\<lambda>(k, p). (k, score p)) ps) ! i)) of
            Some p \<Rightarrow> getRank p | None \<Rightarrow> None) =
         Some (rankAfter (sortDescending (map (\<lambda>(k, p). (k, score p)) ps)) i)"
proof -
  define rs where "rs = sortDescending (map (\<lambda>(k, p). (k, score p)) ps)"
  have keys: "mset (map fst rs) = mset (map fst ps)"
    unfolding rs_def by (rule sortDescending_keys)
  then have drs: "distinct (map fst rs)"
    using dist by (simp only: mset_eq_imp_distinct_iff [OF keys])
  from i have i': "i < length rs" by (simp add: rs_def)
  then have "fst (rs ! i) \<in> set (map fst rs)" by simp
  then have "fst (rs ! i) \<in> set (map fst ps)"
    by (simp only: mset_eq_setD [OF keys])
  then obtain p where p: "map_of ps (fst (rs ! i)) = Some p"
    by (metis map_of_eq_None_iff not_Some_eq set_map)
  have "map_of (assignRanks setRank rs 0 1 ps) (fst (rs ! i)) =
      map_option (setRank (rankAfter rs i)) (map_of ps (fst (rs ! i)))"
    by (rule assignRanks_at [OF drs _ _ i']) simp_all
  then show ?thesis
    unfolding rs_def [symmetric] by (simp add: p get_set)
qed

lemma positionRanks_rankAfter:
  assumes "\<And>i. i < length rankings \<Longrightarrow> rankOf (fst (rankings ! i)) = Some (rankAfter rankings i)"
  shows "positionRanks rankings rankOf"
  unfolding positionRanks_def
proof (intro allI impI)
  fix i assume i: "i < length rankings"
  show "(i = 0 \<longrightarrow> rankOf (fst (rankings ! i)) = Some 1)
        \<and> (0 < i \<and> snd (rankings ! i) = snd (rankings ! (i - 1)) \<longrightarrow>
             rankOf (fst (rankings ! i)) = rankOf (fst (rankings ! (i - 1))))
        \<and> (0 < i \<and> snd (rankings ! i) \<noteq> snd (rankings ! (i - 1)) \<longrightarrow>
             rankOf (fst (rankings ! i)) = Some (i + 1))"
  proof (cases i)
    case 0
    with assms [OF i] show ?thesis by simp
  next
    case (Suc k)
    with i have "k < length rankings" by simp
    from assms [OF this] assms [OF i] Suc show ?thesis by simp
  qed
qed

lemma rankOf_projection:
  "(case map_of ps k of Some p \<Rightarrow> g p | None \<Rightarrow> None) =
     (case map_of (map (\<lambda>(k, p). (k, g p)) ps) k of Some r \<Rightarrow> r | None \<Rightarrow> None)"
  by (simp add: map_of_map split: option.splits)

lemma calculateRankings_round:
  assumes "distinct (map fst (players room))"
  shows "positionRanks (roundRankings (players room))
           (endOfRoundRankOf (players (calculateRankings room)))"
proof (rule positionRanks_rankAfter)
  fix i assume i: "i < length (roundRankings (players room))"
  define ps1 where "ps1 = assignRanks (\<lambda>r p. p\<lparr>endOfRoundRank := Some r\<rparr>)
      (roundRankings (players room)) 0 1 (players room)"
  define ps2 where "ps2 = assignRanks (\<lambda>r p. p\<lparr>overallRank := Some r\<rparr>)
      (overallRankings ps1) 0 1 ps1"
  have c: "players (calculateRankings room) = ps2"
    by (simp add: calculateRankings_def Let_def ps1_def ps2_def)
  have "map (\<lambda>(k, p). (k, endOfRoundRank p)) ps2 = map (\<lambda>(k, p). (k, endOfRoundRank p)) ps1"
    unfolding ps2_def by (rule assignRanks_projection) simp
  moreover have "endOfRoundRankOf ps k =
      (case map_of (map (\<lambda>(k, p). (k, endOfRoundRank p)) ps) k of Some r \<Rightarrow> r | None \<Rightarrow> None)"
    for ps k
    unfolding endOfRoundRankOf_def by (rule rankOf_projection)
  ultimately have "endOfRoundRankOf ps2 k = endOfRoundRankOf ps1 k" for k
    by simp
  moreover have "endOfRoundRankOf ps1 (fst (roundRankings (players room) ! i)) =
      Some (rankAfter (roundRankings (players room)) i)"
    unfolding endOfRoundRankOf_def ps1_def roundRankings_def
    by (rule ranking_pass [OF assms]) (use i in \<open>simp_all add: roundRankings_def\<close>)
  ultimately show "endOfRoundRankOf (players (calculateRankings room))
      (fst (roundRankings (players room) ! i)) = Some (rankAfter (roundRankings (players room)) i)"
    by (simp only: c)
qed

lemma calculateRankings_overall:
  assumes "distinct (map fst (players room))"
  shows "positionRanks (overallRankings (players room))
           (overallRankOf (players (calculateRankings room)))"
proof (rule positionRanks_rankAfter)
  fix i assume i: "i < length (overallRankings (players room))"
  define ps1 where "ps1 = assignRanks (\<lambda>r p. p\<lparr>endOfRoundRank := Some r\<rparr>)
      (roundRankings (players room)) 0 1 (players room)"
  define ps2 where "ps2 = assignRanks (\<lambda>r p. p\<lparr>overallRank := Some r\<rparr>)
      (overallRankings ps1) 0 1 ps1"
  have c: "players (calculateRankings room) = ps2"
    by (simp add: calculateRankings_def Let_def ps1_def ps2_def)
  have "map (\<lambda>(k, p). (k, totalScore p)) ps1 = map (\<lambda>(k, p). (k, totalScore p)) (players room)"
    unfolding ps1_def by (rule assignRanks_projection) simp
  then have o: "overallRankings ps1 = overallRankings (players room)"
    by (simp only: overallRankings_def)
  have d1: "distinct (map fst ps1)"
    unfolding ps1_def using assms by (simp only: assignRanks_keys)
  have "overallRankOf ps2 (fst (overallRankings ps1 ! i)) =
      Some (rankAfter (overallRankings ps1) i)"
    unfolding overallRankOf_def ps2_def overallRankings_def
    by (rule ranking_pass [OF d1]) (use i o in \<open>simp_all add: overallRankings_def\<close>)
  then show "overallRankOf (players (calculateRankings room))
      (fst (overallRankings (players room) ! i)) = Some (rankAfter (overallRankings (players room)) i)"
    by (simp only: c o)
qed

lemma positionRanks_at:
  assumes "positionRanks rankings rankOf" and "i < length rankings"
  shows "i = 0 \<Longrightarrow> rankOf (fst (rankings ! i)) = Some 1"
    and "0 < i \<Longrightarrow> snd (rankings ! i) = snd (rankings ! (i - 1)) \<Longrightarrow>
           rankOf (fst (rankings ! i)) = rankOf (fst (rankings ! (i - 1)))"
    and "0 < i \<Longrightarrow> snd (rankings ! i) \<noteq> snd (rankings ! (i - 1)) \<Longrightarrow>
           rankOf (fst (rankings ! i)) = Some (i + 1)"
  using assms unfolding positionRanks_def by blast+

lemma positionRanks_10_10_7:
  assumes pr: "positionRanks rankings rankOf" and scores: "map snd rankings = [10, 10, 7]"
  shows "map rankOf (map fst rankings) = [Some 1, Some 1, Some 3]"
proof -
  from scores obtain a b c where rs: "rankings = [a, b, c]"
    and sc: "snd a = 10" "snd b = 10" "snd c = 7"
    by (auto simp: map_eq_Cons_conv)
  have r0: "rankOf (fst a) = Some 1"
    using positionRanks_at(1) [OF pr, of 0] by (simp add: rs)
  have r1: "rankOf (fst b) = rankOf (fst a)"
    using positionRanks_at(2) [OF pr, of 1] by (simp add: rs sc)
  have r2: "rankOf (fst c) = Some 3"
    using positionRanks_at(3) [OF pr, of 2] by (simp add: rs sc)
  show ?thesis by (simp add: rs r0 r1 r2)
qed

lemma positionRanks_5_4_3_3_1:
  assumes pr: "positionRanks rankings rankOf" and scores: "map snd rankings = [5, 4, 3, 3, 1]"
  shows "map rankOf (map fst rankings) = [Some 1, Some 2, Some 3, Some 3, Some 5]"
proof -
  from scores obtain a b c d e where rs: "rankings = [a, b, c, d, e]"
    and sc: "snd a = 5" "snd b = 4" "snd c = 3" "snd d = 3" "snd e = 1"
    by (auto simp: map_eq_Cons_conv)
  have r0: "rankOf (fst a) = Some 1"
    using positionRanks_at(1) [OF pr, of 0] by (simp add: rs)
  have r1: "rankOf (fst b) = Some 2"
    using positionRanks_at(3) [OF pr, of 1] by (simp add: rs sc)
  have r2: "rankOf (fst c) = Some 3"
    using positionRanks_at(3) [OF pr, of 2] by (simp add: rs sc)
  have r3: "rankOf (fst d) = rankOf (fst c)"
    using positionRanks_at(2) [OF pr, of 3] by (simp add: rs sc)
  have r4: "rankOf (fst e) = Some 5"
    using positionRanks_at(3) [OF pr, of 4] by (simp add: rs sc)
  show ?thesis by (simp add: rs r0 r1 r2 r3 r4)
qed

lemma positionRanks_all_equal:
  assumes pr: "positionRanks rankings rankOf" and eq: "\<forall>e \<in> set rankings. snd e = c"
  shows "i < length rankings \<Longrightarrow> rankOf (fst (rankings ! i)) = Some 1"
proof (induction i)
  case 0
  then show ?case using positionRanks_at(1) [OF pr, of 0] by simp
next
  case (Suc i)
  then have "snd (rankings ! Suc i) = c" "snd (rankings ! i) = c"
    using eq by simp_all
  then have "rankOf (fst (rankings ! Suc i)) = rankOf (fst (rankings ! i))"
    using positionRanks_at(2) [OF pr Suc.prems] by simp
  with Suc show ?case by simp
qed

lemma all_equal_ranks:
  assumes pr: "positionRanks rankings rankOf" and eq: "\<forall>e \<in> set rankings. snd e = c"
    and keys: "set (map fst ps') \<subseteq> set (map fst rankings)"
    and dist: "distinct (map fst ps')"
    and rankOf: "\<And>k. rankOf k = (case map_of ps' k of Some p \<Rightarrow> getRank p | None \<Rightarrow> None)"
  shows "\<forall>e \<in> set ps'. getRank (snd e) = Some 1"
proof
  fix e assume e: "e \<in> set ps'"
  then have "fst e \<in> set (map fst rankings)" using keys by auto
  then obtain i where i: "i < length rankings" "fst (rankings ! i) = fst e"
    by (auto simp: in_set_conv_nth)
  from positionRanks_all_equal [OF pr eq i(1)] i(2) have "rankOf (fst e) = Some 1" by simp
  moreover from dist e have "map_of ps' (fst e) = Some (snd e)" by simp
  ultimately show "getRank (snd e) = Some 1" by (simp add: rankOf)
qed

lemma calculateRankings_keys:
  "map fst (players (calculateRankings room)) = map fst (players room)"
  by (simp add: calculateRankings_def Let_def assignRanks_keys)

text \<open>
  C2. For a room (the keys of \<^verbatim>\<open>players\<close> distinct, as in any JavaScript object),
  \<^verbatim>\<open>calculateRankings\<close> works, for the round score and for the total score alike, on an
  array that holds the players' (id, score) entries sorted descending by score, and leaves
  in the rank field: 1 for the first player of the array, the rank of the previous player
  for a player with the same score, and the 1-based position otherwise. So sorted scores
  10, 10, 7 give ranks 1, 1, 3; sorted scores 5, 4, 3, 3, 1 give 1, 2, 3, 3, 5; and when all
  players have the same score every player has rank 1.
\<close>

theorem calculateRankings_dense:
  assumes "distinct (map fst (players room))"
  shows "mset (roundRankings (players room)) =
           mset (map (\<lambda>(playerId, player). (playerId, currentRoundScore player)) (players room))
    \<and> sorted_wrt (\<lambda>a b. snd b \<le> snd a) (roundRankings (players room))
    \<and> positionRanks (roundRankings (players room))
          (endOfRoundRankOf (players (calculateRankings room)))
    \<and> mset (overallRankings (players room)) =
           mset (map (\<lambda>(playerId, player). (playerId, totalScore player)) (players room))
    \<and> sorted_wrt (\<lambda>a b. snd b \<le> snd a) (overallRankings (players room))
    \<and> positionRanks (overallRankings (players room))
          (overallRankOf (players (calculateRankings room)))
    \<and> (map snd (roundRankings (players room)) = [10, 10, 7] \<longrightarrow>
          map (endOfRoundRankOf (players (calculateRankings room)))
            (map fst (roundRankings (players room))) = [Some 1, Some 1, Some 3])
    \<and> (map snd (roundRankings (players room)) = [5, 4, 3, 3, 1] \<longrightarrow>
          map (endOfRoundRankOf (players (calculateRankings room)))
            (map fst (roundRankings (players room))) = [Some 1, Some 2, Some 3, Some 3, Some 5])
    \<and> ((\<forall>e \<in> set (players room). currentRoundScore (snd e) = c) \<longrightarrow>
          (\<forall>e \<in> set (players (calculateRankings room)). endOfRoundRank (snd e) = Some 1))
    \<and> (map snd (overallRankings (players room)) = [10, 10, 7] \<longrightarrow>
          map (overallRankOf (players (calculateRankings room)))
            (map fst (overallRankings (players room))) = [Some 1, Some 1, Some 3])
    \<and> (map snd (overallRankings (players room)) = [5, 4, 3, 3, 1] \<longrightarrow>
          map (overallRankOf (players (calculateRankings room)))
            (map fst (overallRankings (players room))) = [Some 1, Some 2, Some 3, Some 3, Some 5])
    \<and> ((\<forall>e \<in> set (players room). totalScore (snd e) = c) \<longrightarrow>
          (\<forall>e \<in> set (players (calculateRankings room)). overallRank (snd e) = Some 1))"
proof -
  note pr = calculateRankings_round [OF assms]
  note po = calculateRankings_overall [OF assms]
  have dist': "distinct (map fst (players (calculateRankings room)))"
    using assms by (simp only: calculateRankings_keys)
  have kr: "set (map fst (players (calculateRankings room))) \<subseteq>
      set (map fst (roundRankings (players room)))"
    unfolding roundRankings_def calculateRankings_keys
    by (simp only: mset_eq_setD [OF sortDescending_keys] subset_refl)
  have ko: "set (map fst (players (calculateRankings room))) \<subseteq>
      set (map fst (overallRankings (players room)))"
    unfolding overallRankings_def calculateRankings_keys
    by (simp only: mset_eq_setD [OF sortDescending_keys] subset_refl)
  have er: "\<forall>e \<in> set (players (calculateRankings room)). endOfRoundRank (snd e) = Some 1"
    if "\<forall>e \<in> set (players room). currentRoundScore (snd e) = c"
  proof (rule all_equal_ranks [OF pr _ kr dist'])
    show "\<forall>e \<in> set (roundRankings (players room)). snd e = c"
      using that by (auto simp: roundRankings_def sortDescending_def)
    show "endOfRoundRankOf (players (calculateRankings room)) k =
        (case map_of (players (calculateRankings room)) k of
           Some p \<Rightarrow> endOfRoundRank p | None \<Rightarrow> None)" for k
      by (simp add: endOfRoundRankOf_def)
  qed
  have eo: "\<forall>e \<in> set (players (calculateRankings room)). overallRank (snd e) = Some 1"
    if "\<forall>e \<in> set (players room). totalScore (snd e) = c"
  proof (rule all_equal_ranks [OF po _ ko dist'])
    show "\<forall>e \<in> set (overallRankings (players room)). snd e = c"
      using that by (auto simp: overallRankings_def sortDescending_def)
    show "overallRankOf (players (calculateRankings room)) k =
        (case map_of (players (calculateRankings room)) k of
           Some p \<Rightarrow> overallRank p | None \<Rightarrow> None)" for k
      by (simp add: overallRankOf_def)
  qed
  show ?thesis
    using pr po er eo
      positionRanks_10_10_7 [OF pr] positionRanks_5_4_3_3_1 [OF pr]
      positionRanks_10_10_7 [OF po] positionRanks_5_4_3_3_1 [OF po]
    by (simp add: roundRankings_def overallRankings_def sortDescending_entries(1,2))
qed

theorem calculateRankings_dense_witness:
  "distinct (map fst (players rankedRoom))
   \<and> roundRankings (players rankedRoom) = [(''s2'', 10), (''s3'', 10), (''s1'', 7)]
   \<and> map (endOfRoundRankOf (players (calculateRankings rankedRoom))) [''s2'', ''s3'', ''s1''] =
       [Some 1, Some 1, Some 3]
   \<and> overallRankings (players rankedRoom) = [(''s2'', 20), (''s3'', 15), (''s1'', 12)]
   \<and> positionRanks [(''s2'', 20), (''s3'', 15), (''s1'', 12)]
         (overallRankOf (players (calculateRankings rankedRoom)))
   \<and> map (\<lambda>(playerId, player). (playerId, endOfRoundRank player, overallRank player))
         (players (calculateRankings rankedRoom)) =
       [(''s1'', Some 3, Some 3), (''s2'', Some 1, Some 1), (''s3'', Some 1, Some 2)]"
proof -
  have d: "distinct (map fst (players rankedRoom))"
    by (simp add: rankedRoom_def)
  have r: "roundRankings (players rankedRoom) = [(''s2'', 10), (''s3'', 10), (''s1'', 7)]"
    by (simp add: rankedRoom_def roundRankings_def sortDescending_def initializePlayer_def)
  have o: "overallRankings (players rankedRoom) = [(''s2'', 20), (''s3'', 15), (''s1'', 12)]"
    by (simp add: rankedRoom_def overallRankings_def sortDescending_def initializePlayer_def)
  have run: "map (\<lambda>(playerId, player). (playerId, endOfRoundRank player, overallRank player))
         (players (calculateRankings rankedRoom)) =
       [(''s1'', Some 3, Some 3), (''s2'', Some 1, Some 1), (''s3'', Some 1, Some 2)]"
    unfolding calculateRankings_def r Let_def
    by (simp add: rankedRoom_def overallRankings_def sortDescending_def initializePlayer_def
        assignRanks_step assignRanks_done)
  note t = calculateRankings_dense [OF d, of 0]
  from t have e1: "map (endOfRoundRankOf (players (calculateRankings rankedRoom)))
      [''s2'', ''s3'', ''s1''] = [Some 1, Some 1, Some 3]"
    by (simp add: r)
  from t have e2: "positionRanks [(''s2'', 20), (''s3'', 15), (''s1'', 12)]
      (overallRankOf (players (calculateRankings rankedRoom)))"
    by (simp add: o)
  from d r o run e1 e2 show ?thesis by simp
qed

section \<open>The current question index\<close>

lemma formatQuestions_fold_dom:
  "dom (fold (\<lambda>(index, questionData) formattedQuestions.
               formattedQuestions(int index + 1 \<mapsto> formatQuestion (random index) questionData))
          (enumerate n results) m) =
     dom m \<union> {int n + 1 .. int n + int (length results)}"
proof (induction results arbitrary: n m)
  case Nil
  then show ?case by simp
next
  case (Cons q qs)
  let ?f = "\<lambda>(index, questionData) formattedQuestions.
      formattedQuestions(int index + 1 \<mapsto> formatQuestion (random index) questionData)"
  have "fold ?f (enumerate n (q # qs)) m =
      fold ?f (enumerate (Suc n) qs) (m(int n + 1 \<mapsto> formatQuestion (random n) q))"
    by simp
  then have "dom (fold ?f (enumerate n (q # qs)) m) =
      dom (m(int n + 1 \<mapsto> formatQuestion (random n) q))
        \<union> {int (Suc n) + 1 .. int (Suc n) + int (length qs)}"
    by (simp only: Cons.IH)
  also have "\<dots> = dom m \<union> {int n + 1 .. int n + int (length (q # qs))}"
    by auto
  finally show ?case .
qed

lemma formatQuestions_dom:
  "dom (formatQuestions random results) = {1 .. int (length results)}"
  unfolding formatQuestions_def by (simp add: formatQuestions_fold_dom)

lemma formatQuestions_first:
  "results \<noteq> [] \<Longrightarrow> \<exists>y. formatQuestions random results 1 = Some y"
proof -
  assume "results \<noteq> []"
  then have "1 \<in> dom (formatQuestions random results)"
    by (cases results) (simp_all add: formatQuestions_dom)
  then show ?thesis by (simp add: dom_def)
qed

lemma questionIndexValid_players:
  "questionIndexValid (room\<lparr>players := ps\<rparr>) = questionIndexValid room"
  "questionIndexValid (room\<lparr>quizStarted := b\<rparr>) = questionIndexValid room"
  by (simp_all add: questionIndexValid_def split: roundQuestionsValue.splits)

lemma questionIndexValid_calculateRankings:
  "questionIndexValid (calculateRankings room) = questionIndexValid room"
  by (simp add: calculateRankings_def Let_def questionIndexValid_players)

lemma registryValid_update:
  "registryValid rooms \<Longrightarrow> questionIndexValid room \<Longrightarrow> registryValid (rooms(r \<mapsto> room))"
  by (simp add: registryValid_def)

lemma registryValid_lookup:
  "registryValid rooms \<Longrightarrow> rooms r = Some room \<Longrightarrow> questionIndexValid room"
  by (auto simp: registryValid_def)

lemma generateRound_valid:
  assumes "generateRound api random c plan m n room = Inr (newQuestions, room1)"
    and "nonEmptyProvider api"
  shows "questionIndexValid
           (room1\<lparr>currentProgress :=
                    (currentProgress room1)\<lparr>roundQuestions := newQuestions, currentQuestion := 1\<rparr>,
                  players := ps\<rparr>)"
  using assms
  by (auto simp: generateRound_def Let_def questionIndexValid_def nonEmptyProvider_def
        split: option.splits intro!: formatQuestions_first)

lemma startQuiz_valid:
  "registryValid rooms \<Longrightarrow> registryValid (snd (startQuiz rooms r))"
  by (auto simp: startQuiz_def Let_def questionIndexValid_players
      intro!: registryValid_update dest: registryValid_lookup split: option.splits)

lemma playerJoin_valid:
  "registryValid rooms \<Longrightarrow> registryValid (snd (playerJoin socketId rooms r n))"
  by (auto simp: playerJoin_def Let_def questionIndexValid_players
      intro!: registryValid_update dest: registryValid_lookup split: option.splits)

lemma endOfRound_valid:
  "registryValid rooms \<Longrightarrow> registryValid (snd (endOfRound rooms r))"
  by (auto simp: endOfRound_def Let_def questionIndexValid_calculateRankings
      intro!: registryValid_update dest: registryValid_lookup split: option.splits)

lemma endOfGame_valid:
  "registryValid rooms \<Longrightarrow> registryValid (snd (endOfGame rooms r))"
  by (auto simp: endOfGame_def Let_def questionIndexValid_calculateRankings
      intro!: registryValid_update dest: registryValid_lookup split: option.splits)

lemma submitAnswer_valid:
  "registryValid rooms \<Longrightarrow> registryValid (snd (submitAnswer socketId rooms r answer))"
  by (auto simp: submitAnswer_def Let_def questionIndexValid_players
      intro!: registryValid_update dest: registryValid_lookup
      split: option.splits roundQuestionsValue.splits)

lemma nextRound_valid:
  assumes "registryValid rooms" and "nonEmptyProvider api"
  shows "registryValid (snd (nextRound api random rooms r))"
proof (cases "rooms r")
  case None
  with assms show ?thesis by (simp add: nextRound_def)
next
  case (Some room)
  show ?thesis
  proof (cases "generateRound api random (currentRound (currentProgress room)) (rounds room)
      (mode room) (questionPerRound room) room")
    case (Inl e)
    with Some assms show ?thesis by (simp add: nextRound_def)
  next
    case (Inr res)
    obtain newQuestions room1 where res: "res = (newQuestions, room1)" by (cases res)
    from Inr res assms(2) Some assms(1) show ?thesis
      by (simp add: nextRound_def Let_def registryValid_update generateRound_valid)
  qed
qed

lemma create_valid:
  assumes "registryValid rooms" and "nonEmptyProvider api"
    and "create idRandom api random socketId rooms t q plan m = Some (reply, rooms')"
  shows "registryValid rooms'"
proof (cases "generateUniqueRoomId idRandom rooms")
  case None
  with assms(3) show ?thesis by (simp add: create_def createRoom_def)
next
  case (Some newRoomId)
  define room0 where "room0 =
     \<lparr>roomId = newRoomId, gameMaster = socketId,
      questionTimeLimit = (case t of Some t \<Rightarrow> t | None \<Rightarrow> 0),
      questionPerRound = (case q of Some n \<Rightarrow> n | None \<Rightarrow> 5),
      mode = m, rounds = plan, players = [], quizStarted = False,
      currentProgress = \<lparr>currentRound = Null, currentQuestion = 1, roundQuestions = NullQuestions\<rparr>\<rparr>"
  show ?thesis
  proof (cases "generateRound api random Null plan m (case q of Some n \<Rightarrow> n | None \<Rightarrow> 5) room0")
    case (Inl e)
    with Some assms(1,3) show ?thesis
      by (simp add: create_def createRoom_def Let_def room0_def)
  next
    case (Inr res)
    obtain newQuestions room1 where res: "res = (newQuestions, room1)" by (cases res)
    have cq: "currentQuestion (currentProgress room1) = 1"
      using Inr res by (auto simp: generateRound_def Let_def room0_def split: option.splits)
    have "questionIndexValid
       (room1\<lparr>currentProgress :=
                (currentProgress room1)\<lparr>roundQuestions := newQuestions, currentQuestion := 1\<rparr>,
              players := players room1\<rparr>)"
      using Inr res assms(2) by (intro generateRound_valid) simp_all
    then have v: "questionIndexValid
       (room1\<lparr>currentProgress := (currentProgress room1)\<lparr>roundQuestions := newQuestions\<rparr>\<rparr>)"
      using cq by (simp add: questionIndexValid_def split: roundQuestionsValue.splits)
    from Some Inr res assms(3) have "rooms' = rooms(newRoomId \<mapsto>
        room1\<lparr>currentProgress := (currentProgress room1)\<lparr>roundQuestions := newQuestions\<rparr>\<rparr>)"
      by (auto simp: create_def createRoom_def Let_def room0_def)
    with v assms(1) show ?thesis by (simp add: registryValid_update)
  qed
qed

lemma nextQuestion_valid:
  assumes "registryValid rooms"
  shows "registryValid (snd (nextQuestion rooms r questionId)) \<longleftrightarrow>
           validAdvance (QuizNextQuestion r questionId) rooms"
proof (cases "rooms r")
  case None
  with assms show ?thesis by (simp add: nextQuestion_def validAdvance_def)
next
  case (Some room)
  define room' where
    "room' = room\<lparr>currentProgress := (currentProgress room)\<lparr>currentQuestion := questionId\<rparr>\<rparr>"
  have s: "snd (nextQuestion rooms r questionId) = rooms(r \<mapsto> room')"
    using Some by (simp add: nextQuestion_def room'_def Let_def)
  have others: "registryValid (rooms(r \<mapsto> room')) \<longleftrightarrow> questionIndexValid room'"
    using assms by (auto simp: registryValid_def)
  have "questionIndexValid room' \<longleftrightarrow> validAdvance (QuizNextQuestion r questionId) rooms"
    using Some
    by (auto simp: questionIndexValid_def validAdvance_def room'_def
        split: roundQuestionsValue.splits)
  with s others show ?thesis by simp
qed

lemma validAdvance_other:
  "\<forall>r questionId. ev \<noteq> QuizNextQuestion r questionId \<Longrightarrow> validAdvance ev rooms"
  by (simp add: validAdvance_def)

text \<open>
  C9, as the code has it. The empty registry the server starts with satisfies the
  invariant. From a registry that satisfies it, with a provider that never answers with an
  empty list of questions, the registry after a handled event satisfies it again exactly
  when the event is not a \<^verbatim>\<open>quiz:nextQuestion\<close> whose \<^verbatim>\<open>questionId\<close> is no key of the room's
  question object: every other handler keeps the invariant, and \<^verbatim>\<open>nextQuestion\<close> stores
  the caller's \<^verbatim>\<open>questionId\<close> unchecked.
\<close>

theorem roomHandler_index_valid:
  assumes "registryValid rooms" and "nonEmptyProvider api"
    and "roomHandler idRandom api random socketId ev rooms = Some (reply, rooms')"
  shows "registryValid initialRooms \<and> (registryValid rooms' \<longleftrightarrow> validAdvance ev rooms)"
proof
  show "registryValid initialRooms"
    by (simp add: registryValid_def initialRooms_def)
  show "registryValid rooms' \<longleftrightarrow> validAdvance ev rooms"
  proof (cases ev)
    case (RoomCreate t q plan m)
    with assms(3) have "create idRandom api random socketId rooms t q plan m = Some (reply, rooms')"
      by (simp add: roomHandler_def)
    from create_valid [OF assms(1,2) this] RoomCreate show ?thesis
      by (simp add: validAdvance_other)
  next
    case (QuizStart r)
    with assms(3) have "rooms' = snd (startQuiz rooms r)"
      by (auto simp: roomHandler_def)
    with startQuiz_valid [OF assms(1)] QuizStart show ?thesis
      by (simp add: validAdvance_other)
  next
    case (PlayerJoin r n)
    with assms(3) have "rooms' = snd (playerJoin socketId rooms r n)"
      by (auto simp: roomHandler_def)
    with playerJoin_valid [OF assms(1)] PlayerJoin show ?thesis
      by (simp add: validAdvance_other)
  next
    case (QuizNextQuestion r questionId)
    with assms(3) have "rooms' = snd (nextQuestion rooms r questionId)"
      by (auto simp: roomHandler_def)
    with nextQuestion_valid [OF assms(1)] QuizNextQuestion show ?thesis
      by simp
  next
    case (QuizEndOfRound r)
    with assms(3) have "rooms' = snd (endOfRound rooms r)"
      by (auto simp: roomHandler_def)
    with endOfRound_valid [OF assms(1)] QuizEndOfRound show ?thesis
      by (simp add: validAdvance_other)
  next
    case (QuizNextRound r)
    with assms(3) have "rooms' = snd (nextRound api random rooms r)"
      by (auto simp: roomHandler_def)
    with nextRound_valid [OF assms(1,2)] QuizNextRound show ?thesis
      by (simp add: validAdvance_other)
  next
    case (SubmitAnswer r answer)
    with assms(3) have "rooms' = snd (submitAnswer socketId rooms r answer)"
      by (auto simp: roomHandler_def)
    with submitAnswer_valid [OF assms(1)] SubmitAnswer show ?thesis
      by (simp add: validAdvance_other)
  next
    case (QuizEndOfGame r)
    with assms(3) have "rooms' = snd (endOfGame rooms r)"
      by (auto simp: roomHandler_def)
    with endOfGame_valid [OF assms(1)] QuizEndOfGame show ?thesis
      by (simp add: validAdvance_other)
  qed
qed

theorem roomHandler_index_valid_witness:
  "registryValid demoRooms \<and> nonEmptyProvider demoApi
   \<and> roomHandler cyclicSource demoApi zeroSource ''gm'' (QuizNextQuestion ''100000'' 1) demoRooms =
       Some (nextQuestion demoRooms ''100000'' 1)
   \<and> validAdvance (QuizNextQuestion ''100000'' 1) demoRooms
   \<and> registryValid (snd (nextQuestion demoRooms ''100000'' 1))
   \<and> roomHandler cyclicSource demoApi zeroSource ''gm'' (QuizNextQuestion ''100000'' 7) demoRooms =
       Some (nextQuestion demoRooms ''100000'' 7)
   \<and> \<not> validAdvance (QuizNextQuestion ''100000'' 7) demoRooms
   \<and> \<not> registryValid (snd (nextQuestion demoRooms ''100000'' 7))"
proof -
  have v: "registryValid demoRooms"
    by (simp add: registryValid_def demoRooms_def demoRoom_def questionIndexValid_def)
  have p: "nonEmptyProvider demoApi"
    by (simp add: nonEmptyProvider_def demoApi_def)
  have h1: "roomHandler cyclicSource demoApi zeroSource ''gm'' (QuizNextQuestion ''100000'' 1)
      demoRooms = Some (fst (nextQuestion demoRooms ''100000'' 1), snd (nextQuestion demoRooms ''100000'' 1))"
    by (simp add: roomHandler_def)
  have h7: "roomHandler cyclicSource demoApi zeroSource ''gm'' (QuizNextQuestion ''100000'' 7)
      demoRooms = Some (fst (nextQuestion demoRooms ''100000'' 7), snd (nextQuestion demoRooms ''100000'' 7))"
    by (simp add: roomHandler_def)
  have a1: "validAdvance (QuizNextQuestion ''100000'' 1) demoRooms"
    by (simp add: validAdvance_def demoRooms_def demoRoom_def)
  have a7: "\<not> validAdvance (QuizNextQuestion ''100000'' 7) demoRooms"
    by (simp add: validAdvance_def demoRooms_def demoRoom_def)
  show ?thesis
    using v p a1 a7 roomHandler_index_valid [OF v p h1] roomHandler_index_valid [OF v p h7]
    by (simp add: roomHandler_def)
qed

text \<open>
  C9 as stated fails: \<^verbatim>\<open>room:create\<close> on the empty registry makes a room with one question
  (key 1) and current question 1; \<^verbatim>\<open>quiz:nextQuestion\<close> with \<^verbatim>\<open>questionId\<close> 7 is accepted and
  leaves the room with the same questions and current question 7, which is no key of them.
\<close>

theorem nextQuestion_breaks_index:
  "create cyclicSource demoApi zeroSource ''gm'' initialRooms None None [10, 10, 12] 1 =
     Some (Inr (RoomReply createdRoom), [''100000'' \<mapsto> createdRoom])
   \<and> questionIndexValid createdRoom
   \<and> nextQuestion [''100000'' \<mapsto> createdRoom] ''100000'' 7 =
       (Inr (RoomReply advancedRoom), [''100000'' \<mapsto> advancedRoom])
   \<and> roundQuestions (currentProgress advancedRoom) = roundQuestions (currentProgress createdRoom)
   \<and> \<not> questionIndexValid advancedRoom"
proof -
  have t0: "toString 100000 = ''100000''"
    by (simp add: toString_small toString_step digitChar_def)
  note s0 = cyclicSource_samples(1)
  have g: "generateUniqueRoomId cyclicSource (Map.empty :: registry) = Some ''100000''"
    unfolding generateUniqueRoomId_def
    by (subst generateUniqueRoomId_loop.simps) (simp add: s0 Let_def)
  have c: "create cyclicSource demoApi zeroSource ''gm'' initialRooms None None [10, 10, 12] 1 =
     Some (Inr (RoomReply createdRoom), [''100000'' \<mapsto> createdRoom])"
    unfolding initialRooms_def
    by (simp add: create_def createRoom_def g generateRound_def nextCategoryId_def arrayGet_def
        demoApi_def difficultyMap_def createdRoom_def Let_def)
  have d: "dom (formatQuestions zeroSource [QuestionData ''Q'' ''B'' [''A'', ''C'', ''D'']]) = {1}"
    by (simp add: formatQuestions_dom)
  then have k: "formatQuestions zeroSource [QuestionData ''Q'' ''B'' [''A'', ''C'', ''D'']] 1 \<noteq> None"
    "formatQuestions zeroSource [QuestionData ''Q'' ''B'' [''A'', ''C'', ''D'']] 7 = None"
  proof -
    from d have "1 \<in> dom (formatQuestions zeroSource [QuestionData ''Q'' ''B'' [''A'', ''C'', ''D'']])"
      by simp
    then show "formatQuestions zeroSource [QuestionData ''Q'' ''B'' [''A'', ''C'', ''D'']] 1 \<noteq> None"
      by (simp only: domIff not_False_eq_True)
    from d have "7 \<notin> dom (formatQuestions zeroSource [QuestionData ''Q'' ''B'' [''A'', ''C'', ''D'']])"
      by simp
    then show "formatQuestions zeroSource [QuestionData ''Q'' ''B'' [''A'', ''C'', ''D'']] 7 = None"
      by (simp only: domIff not_not)
  qed
  have v: "questionIndexValid createdRoom"
    using k by (simp add: questionIndexValid_def createdRoom_def)
  have n: "nextQuestion [''100000'' \<mapsto> createdRoom] ''100000'' 7 =
       (Inr (RoomReply advancedRoom), [''100000'' \<mapsto> advancedRoom])"
    by (simp add: nextQuestion_def advancedRoom_def Let_def)
  have b: "\<not> questionIndexValid advancedRoom"
    using k by (simp add: questionIndexValid_def advancedRoom_def createdRoom_def)
  show ?thesis
    using c v n b by (simp add: advancedRoom_def)
qed

end
